theory Spec2Isabelle
  imports Complex_Main
begin

section \<open>Values, rows and collections\<close>

text \<open>
  The view of \<^verbatim>\<open>djangbone/views.py\<close> works on Python values, on model instances
  read by attribute name, and on a collection that is either a lazy Django queryset or
  a plain Python list.
\<close>

text \<open>
  A \<^verbatim>\<open>datetime.datetime\<close>: year, month, day, hour, minute, second, microsecond, and
  the UTC offset in minutes of an aware value (\<open>None\<close> for a naive one).
\<close>

datatype datetime =
  Datetime (dt_year: nat) (dt_month: nat) (dt_day: nat)
    (dt_hour: nat) (dt_minute: nat) (dt_second: nat) (dt_microsecond: nat)
    (dt_utcoffset: "int option")

text \<open>
  A \<^verbatim>\<open>decimal.Decimal\<close>: a finite value is a sign (true for negative), a
  coefficient and a power of ten; the special values are the infinities, the quiet
  NaN and the signaling NaN.
\<close>

datatype decimal = DFinite bool nat int | DInfinity bool | DNaN | DSignalingNaN

text \<open>
  A Python \<^verbatim>\<open>float\<close>, an IEEE double: a finite value is a sign, a significand and
  a power of two.
\<close>

datatype pyfloat = FFinite bool nat int | FInfinity bool | FNaN

datatype pyvalue =
    PNone
  | PBool bool
  | PInt int
  | PFloat pyfloat
  | PStr string
  | PList "pyvalue list"
  | PDict "(string \<times> pyvalue) list"
  | PDatetime datetime
  | PDecimal decimal
  | PObject string

text \<open>
  Exceptions the handlers raise or let through. \<open>Http404\<close> is the only one the
  framework turns into a 404 response; the others surface as a server error.
\<close>

datatype error =
    Http404
  | AssertionError
  | AttributeError
  | IndexError
  | KeyError
  | FieldError
  | ObjectDoesNotExist
  | MultipleObjectsReturned
  | ValueError

text \<open>Python truthiness, as \<^verbatim>\<open>if x:\<close> tests it.\<close>

fun truthy :: "pyvalue \<Rightarrow> bool" where
  "truthy PNone = False"
| "truthy (PBool b) = b"
| "truthy (PInt n) = (n \<noteq> 0)"
| "truthy (PFloat (FFinite s m e)) = (m \<noteq> 0)"
| "truthy (PFloat (FInfinity s)) = True"
| "truthy (PFloat FNaN) = True"
| "truthy (PStr s) = (s \<noteq> [])"
| "truthy (PList xs) = (xs \<noteq> [])"
| "truthy (PDict kvs) = (kvs \<noteq> [])"
| "truthy (PDatetime d) = True"
| "truthy (PDecimal (DFinite s c x)) = (c \<noteq> 0)"
| "truthy (PDecimal (DInfinity s)) = True"
| "truthy (PDecimal DNaN) = True"
| "truthy (PDecimal DSignalingNaN) = True"
| "truthy (PObject c) = True"

text \<open>\<^verbatim>\<open>d.get(k)\<close> followed by a truth test: a missing key gives \<^verbatim>\<open>None\<close>, which is false.\<close>

definition truthy_get :: "(string \<rightharpoonup> pyvalue) \<Rightarrow> string \<Rightarrow> bool" where
  "truthy_get kwargs k = (case kwargs k of None \<Rightarrow> False | Some v \<Rightarrow> truthy v)"

text \<open>
  A model instance: its primary key, its columns (what \<^verbatim>\<open>values()\<close> can read) and its
  further attributes (what only \<^verbatim>\<open>getattr\<close> can read).
\<close>

record row =
  row_pk :: pyvalue
  columns :: "(string \<times> pyvalue) list"
  props :: "(string \<times> pyvalue) list"

definition getattr :: "row \<Rightarrow> string \<Rightarrow> error + pyvalue" where
  "getattr obj name =
     (case map_of (columns obj @ props obj) name of
        None \<Rightarrow> Inl AttributeError
      | Some v \<Rightarrow> Inr v)"

text \<open>
  A collection as the view meets it. \<open>QuerySet cached rows\<close> is a Django queryset whose
  query selects \<open>rows\<close>; \<open>cached\<close> tells whether it has been evaluated (by \<^verbatim>\<open>len\<close> or a
  truth test), after which slicing it answers from the cache with a plain list.
  \<open>PyList rows\<close> is a Python list of instances.
\<close>

datatype queryset = QuerySet bool "row list" | PyList "row list"

fun qs_rows :: "queryset \<Rightarrow> row list" where
  "qs_rows (QuerySet c rs) = rs"
| "qs_rows (PyList rs) = rs"

text \<open>\<^verbatim>\<open>callable(getattr(qs, 'values', None))\<close>: a queryset has \<^verbatim>\<open>values\<close>, a list has not.\<close>

fun has_values :: "queryset \<Rightarrow> bool" where
  "has_values (QuerySet c rs) = True"
| "has_values (PyList rs) = False"

text \<open>Evaluating a queryset (\<^verbatim>\<open>len(qs)\<close>, \<^verbatim>\<open>if qs:\<close>) fills its cache.\<close>

fun evaluated :: "queryset \<Rightarrow> queryset" where
  "evaluated (QuerySet c rs) = QuerySet True rs"
| "evaluated (PyList rs) = PyList rs"

text \<open>
  \<^verbatim>\<open>xs[a:b]\<close> on a Python list: a negative bound counts from the end, and every bound
  is clipped to the list.
\<close>

definition py_slice :: "'a list \<Rightarrow> int \<Rightarrow> int \<Rightarrow> 'a list" where
  "py_slice xs a b =
     (let n = int (length xs);
          lo = (if a < 0 then max 0 (a + n) else min a n);
          hi = (if b < 0 then max 0 (b + n) else min b n)
      in take (nat (hi - lo)) (drop (nat lo) xs))"

text \<open>
  \<^verbatim>\<open>queryset[a:b]\<close>. A Django queryset asserts that neither bound is negative
  ("Negative indexing is not supported."); an evaluated one then slices its cache and
  returns a list, an unevaluated one returns a new queryset limited to the range.
\<close>

fun qs_slice :: "queryset \<Rightarrow> int \<Rightarrow> int \<Rightarrow> error + queryset" where
  "qs_slice (PyList rs) a b = Inr (PyList (py_slice rs a b))"
| "qs_slice (QuerySet c rs) a b =
     (if a < 0 \<or> b < 0 then Inl AssertionError
      else if c then Inr (PyList (py_slice rs a b))
      else Inr (QuerySet False (py_slice rs a b)))"

text \<open>
  \<^verbatim>\<open>base_queryset.filter(pk=k)\<close>: a fresh, unevaluated queryset of the rows with that key.
  A key is compared as the value it denotes; the conversion of the captured URL text to
  the key column's type, and the exception it raises for text of the wrong form, are
  outside the model.
\<close>

definition qs_filter_pk :: "row list \<Rightarrow> pyvalue \<Rightarrow> queryset" where
  "qs_filter_pk db k = QuerySet False (filter (\<lambda>r. row_pk r = k) db)"

text \<open>\<^verbatim>\<open>base_queryset.get(pk=k)\<close>: the one matching row, or an exception.\<close>

definition qs_get_pk :: "row list \<Rightarrow> pyvalue \<Rightarrow> error + row" where
  "qs_get_pk db k =
     (case filter (\<lambda>r. row_pk r = k) db of
        [] \<Rightarrow> Inl ObjectDoesNotExist
      | [r] \<Rightarrow> Inr r
      | _ \<Rightarrow> Inl MultipleObjectsReturned)"

text \<open>\<^verbatim>\<open>qs.delete()\<close> on a queryset filtered by key: the table without the matching rows.\<close>

definition qs_delete_pk :: "row list \<Rightarrow> pyvalue \<Rightarrow> row list" where
  "qs_delete_pk db k = filter (\<lambda>r. row_pk r \<noteq> k) db"


section \<open>Requests, responses and the view's configuration\<close>

text \<open>The parts of the request the view reads: the query parameters and the raw body.\<close>

record request =
  GET :: "string \<rightharpoonup> string"
  body :: string

text \<open>
  \<^verbatim>\<open>HttpResponse(content, status=..., mimetype=...)\<close>; status defaults to 200 and an
  absent mimetype leaves the framework's default content type.
\<close>

record http_response =
  content :: string
  status :: int
  mimetype :: "string option"

text \<open>
  A bound form. \<open>save\<close> yields the saved instance and the table after saving;
  \<open>errors\<close> is the form's error dictionary together with the text \<^verbatim>\<open>str()\<close> gives for it.
\<close>

record form_errors =
  error_map :: "(string \<times> string list) list"
  error_str :: string

record form =
  is_valid :: bool
  save :: "row \<times> row list"
  errors :: form_errors

text \<open>
  A form class: constructed from the decoded body, the instance being edited (PUT only),
  the request when the form has a \<^verbatim>\<open>set_request\<close> method, and the table it validates
  against.
\<close>

record form_class =
  has_set_request :: bool
  construct :: "pyvalue \<Rightarrow> row option \<Rightarrow> request option \<Rightarrow> row list \<Rightarrow> form"

text \<open>
  The class attributes of \<^verbatim>\<open>BackboneAPIView\<close>. \<open>page_size\<close> is \<open>Some S\<close> exactly when the
  attribute is an \<^verbatim>\<open>int\<close>. \<open>model_fields\<close> are the column names of the model behind
  \<^verbatim>\<open>base_queryset\<close>; the rows \<^verbatim>\<open>base_queryset\<close> selects are passed to each handler as
  the table \<open>db\<close>, since the queryset is lazy and re-read on every request.
\<close>

record view =
  model_fields :: "string list"
  serialize_fields :: "string list"
  custom_values :: "(string \<times> (row \<Rightarrow> pyvalue)) list"
  values_override :: "(row \<Rightarrow> pyvalue) option"
  pk :: string
  page_size :: "int option"
  page_param_name :: string
  add_form_class :: "form_class option"
  edit_form_class :: "form_class option"
  json_encoder :: "pyvalue \<Rightarrow> string"
  json_decoder :: "string \<Rightarrow> pyvalue option"

section \<open>The library conversions the encoder calls\<close>

text \<open>Decimal digits of a natural number, and the same padded with zeros to a width.\<close>

fun nat_digits :: "nat \<Rightarrow> string" where
  "nat_digits n =
     (if n < 10 then [''0123456789'' ! n]
      else nat_digits (n div 10) @ [''0123456789'' ! (n mod 10)])"

declare nat_digits.simps [simp del]

definition zero_pad :: "nat \<Rightarrow> nat \<Rightarrow> string" where
  "zero_pad width n = replicate (width - length (nat_digits n)) (CHR ''0'') @ nat_digits n"

text \<open>
  Modelled from the spec: \<^verbatim>\<open>datetime.isoformat()\<close> is library code, which the spec
  describes as giving the ISO-8601 string of a timestamp. It is the text
  \<^verbatim>\<open>YYYY-MM-DDTHH:MM:SS\<close>, followed by \<^verbatim>\<open>.ffffff\<close> when the microseconds are not
  zero and by \<^verbatim>\<open>+HH:MM\<close> or \<^verbatim>\<open>-HH:MM\<close> for an aware value.
\<close>

definition isoformat :: "datetime \<Rightarrow> string" where
  "isoformat d =
     zero_pad 4 (dt_year d) @ ''-'' @ zero_pad 2 (dt_month d) @ ''-'' @ zero_pad 2 (dt_day d)
     @ ''T'' @ zero_pad 2 (dt_hour d) @ '':'' @ zero_pad 2 (dt_minute d)
     @ '':'' @ zero_pad 2 (dt_second d)
     @ ((if dt_microsecond d = 0 then [] else ''.'' @ zero_pad 6 (dt_microsecond d))
        @ (case dt_utcoffset d of
             None \<Rightarrow> []
           | Some off \<Rightarrow>
               (if off < 0 then ''-'' else ''+'')
               @ zero_pad 2 (nat \<bar>off\<bar> div 60) @ '':'' @ zero_pad 2 (nat \<bar>off\<bar> mod 60)))"

text \<open>
  The values a finite decimal and a finite double stand for, and which doubles exist:
  53 bits of significand and a power of two from \<open>-1074\<close> to \<open>971\<close>.
\<close>

definition sign_factor :: "bool \<Rightarrow> rat" where
  "sign_factor negative = (if negative then - 1 else 1)"

definition decimal_value :: "bool \<Rightarrow> nat \<Rightarrow> int \<Rightarrow> rat" where
  "decimal_value s c x = sign_factor s * (of_nat c * 10 powi x)"

fun float_value :: "pyfloat \<Rightarrow> rat" where
  "float_value (FFinite s m e) = sign_factor s * (of_nat m * 2 powi e)"
| "float_value f = 0"

fun is_double :: "pyfloat \<Rightarrow> bool" where
  "is_double (FFinite s m e) = (m < 2 ^ 53 \<and> - 1074 \<le> e \<and> e \<le> 971)"
| "is_double f = False"

text \<open>
  A finite decimal as a fraction of units of \<open>2 ^ (-1074)\<close>, the spacing of the
  smallest doubles: its magnitude is \<open>scaled_num / scaled_den\<close> such units.
\<close>

definition scaled_num :: "nat \<Rightarrow> int \<Rightarrow> nat" where
  "scaled_num c x = (if 0 \<le> x then c * 10 ^ nat x else c) * 2 ^ 1074"

definition scaled_den :: "int \<Rightarrow> nat" where
  "scaled_den x = (if 0 \<le> x then 1 else 10 ^ nat (- x))"

text \<open>
  Rounding a fraction of units to a double: \<open>bit_length\<close> finds the binade, which fixes
  the spacing \<open>2 ^ k\<close> of the doubles there, and the quotient by that spacing is rounded
  to the nearest integer, a tie going to the even one.
\<close>

fun bit_length :: "nat \<Rightarrow> nat" where
  "bit_length n = (if n = 0 then 0 else Suc (bit_length (n div 2)))"

declare bit_length.simps [simp del]

definition round_half_even :: "nat \<Rightarrow> nat \<Rightarrow> nat" where
  "round_half_even n d =
     (let a = n div d; r = n mod d
      in if 2 * r < d then a
         else if d < 2 * r then a + 1
         else if even a then a else a + 1)"

definition nearest_units :: "nat \<Rightarrow> nat \<Rightarrow> nat \<times> nat" where
  "nearest_units n d =
     (let k = bit_length (n div d) - 53
      in (round_half_even n (d * 2 ^ k), k))"

text \<open>
  Modelled from the spec: \<^verbatim>\<open>float(obj)\<close> on a \<^verbatim>\<open>Decimal\<close> is library code, which the
  spec describes as giving the nearest double-precision float. A finite decimal is
  rounded to the nearest double, or to infinity when the rounded significand leaves
  the range of the doubles; an infinite decimal gives the infinity of its sign and a
  quiet NaN gives NaN. Python refuses to convert a signaling NaN and raises
  \<^verbatim>\<open>ValueError\<close>.
\<close>

definition float_of_finite :: "bool \<Rightarrow> nat \<Rightarrow> int \<Rightarrow> pyfloat" where
  "float_of_finite s c x =
     (case nearest_units (scaled_num c x) (scaled_den x) of
        (m, k) \<Rightarrow>
          if m = 2 ^ 53 then
            (if k < 2045 then FFinite s (2 ^ 52) (int k + 1 - 1074) else FInfinity s)
          else if k \<le> 2045 then FFinite s m (int k - 1074)
          else FInfinity s)"

fun float_of_decimal :: "decimal \<Rightarrow> error + pyfloat" where
  "float_of_decimal (DFinite s c x) = Inr (float_of_finite s c x)"
| "float_of_decimal (DInfinity s) = Inr (FInfinity s)"
| "float_of_decimal DNaN = Inr FNaN"
| "float_of_decimal DSignalingNaN = Inl ValueError"

section \<open>The JSON encoder's fallback\<close>

text \<open>
  \<^verbatim>\<open>DjangboneJSONEncoder.default(obj)\<close>: \<^verbatim>\<open>obj.isoformat()\<close> for a
  \<^verbatim>\<open>datetime\<close>, \<^verbatim>\<open>float(obj)\<close> for a \<^verbatim>\<open>Decimal\<close>, whose exception is not caught,
  and \<^verbatim>\<open>None\<close> for anything else.
\<close>

fun DjangboneJSONEncoder_default :: "pyvalue \<Rightarrow> error + pyvalue" where
  "DjangboneJSONEncoder_default (PDatetime d) = Inr (PStr (isoformat d))"
| "DjangboneJSONEncoder_default (PDecimal q) =
     (case float_of_decimal q of
        Inl e \<Rightarrow> Inl e
      | Inr f \<Rightarrow> Inr (PFloat f))"
| "DjangboneJSONEncoder_default obj = Inr PNone"

section \<open>Reading the page number\<close>

text \<open>
  Python's \<^verbatim>\<open>int()\<close> on text: optional surrounding whitespace, an optional sign, then
  one or more decimal digits; anything else raises \<^verbatim>\<open>ValueError\<close> (here \<open>None\<close>).
  Digit-group underscores and non-ASCII digits are not covered.
\<close>

definition is_space :: "char \<Rightarrow> bool" where
  "is_space c = (c \<in> set [CHR '' '', CHR 0x09, CHR 0x0A, CHR 0x0B, CHR 0x0C, CHR 0x0D])"

definition strip :: "string \<Rightarrow> string" where
  "strip s = rev (dropWhile is_space (rev (dropWhile is_space s)))"

definition digit_of :: "char \<Rightarrow> nat option" where
  "digit_of c =
     (let n = (of_char c :: nat) in if 48 \<le> n \<and> n \<le> 57 then Some (n - 48) else None)"

fun digits_to_nat :: "string \<Rightarrow> nat \<Rightarrow> nat option" where
  "digits_to_nat [] acc = Some acc"
| "digits_to_nat (c # cs) acc =
     (case digit_of c of None \<Rightarrow> None | Some d \<Rightarrow> digits_to_nat cs (10 * acc + d))"

definition py_int :: "string \<Rightarrow> int option" where
  "py_int s =
     (case strip s of
        [] \<Rightarrow> None
      | c # cs \<Rightarrow>
          if c = CHR ''-'' then
            (if cs = [] then None else map_option (\<lambda>n. - int n) (digits_to_nat cs 0))
          else if c = CHR ''+'' then
            (if cs = [] then None else map_option int (digits_to_nat cs 0))
          else map_option int (digits_to_nat (c # cs) 0))"

text \<open>
  Lines 168-172 of \<^verbatim>\<open>serialize_qs\<close>:
  \<^verbatim>\<open>page_number = int(self.request.GET.get(self.page_param_name, 1))\<close>,
  \<^verbatim>\<open>offset = (page_number - 1) * self.page_size\<close>, and \<^verbatim>\<open>offset = 0\<close> on \<^verbatim>\<open>ValueError\<close>.
\<close>

definition page_offset :: "view \<Rightarrow> request \<Rightarrow> int \<Rightarrow> int" where
  "page_offset v req S =
     (case GET req (page_param_name v) of
        None \<Rightarrow> (1 - 1) * S
      | Some s \<Rightarrow>
          (case py_int s of
             None \<Rightarrow> 0
           | Some page_number \<Rightarrow> (page_number - 1) * S))"

section \<open>Projection\<close>

text \<open>\<^verbatim>\<open>d[k] = v\<close> on a dictionary kept in insertion order.\<close>

fun dict_set :: "(string \<times> 'a) list \<Rightarrow> string \<Rightarrow> 'a \<Rightarrow> (string \<times> 'a) list" where
  "dict_set [] k v = [(k, v)]"
| "dict_set ((k', v') # kvs) k v =
     (if k' = k then (k, v) # kvs else (k', v') # dict_set kvs k v)"

text \<open>\<^verbatim>\<open>dict(pairs)\<close>: later pairs overwrite earlier ones with the same key.\<close>

definition dict_of_pairs :: "(string \<times> 'a) list \<Rightarrow> (string \<times> 'a) list" where
  "dict_of_pairs ps = foldl (\<lambda>d (k, v). dict_set d k v) [] ps"

text \<open>\<^verbatim>\<open>[(name, getattr(obj, name)) for name in self.serialize_fields]\<close>; the first
  missing attribute raises.\<close>

fun read_fields :: "row \<Rightarrow> string list \<Rightarrow> error + (string \<times> pyvalue) list" where
  "read_fields obj [] = Inr []"
| "read_fields obj (name # names) =
     (case getattr obj name of
        Inl e \<Rightarrow> Inl e
      | Inr v \<Rightarrow>
          (case read_fields obj names of
             Inl e \<Rightarrow> Inl e
           | Inr ps \<Rightarrow> Inr ((name, v) # ps)))"

text \<open>\<^verbatim>\<open>for name, method in self.custom_values.items(): vals[name] = method(obj)\<close>\<close>

definition apply_custom ::
  "(string \<times> (row \<Rightarrow> pyvalue)) list \<Rightarrow> row \<Rightarrow> (string \<times> pyvalue) list \<Rightarrow> (string \<times> pyvalue) list" where
  "apply_custom cvs obj vals = foldl (\<lambda>d (name, method). dict_set d name (method obj)) vals cvs"

text \<open>The body of the \<^verbatim>\<open>for obj in qs\<close> loop in the second branch of \<^verbatim>\<open>get_values\<close>.\<close>

definition row_vals :: "view \<Rightarrow> row \<Rightarrow> error + pyvalue" where
  "row_vals v obj =
     (case read_fields obj (serialize_fields v) of
        Inl e \<Rightarrow> Inl e
      | Inr ps \<Rightarrow> Inr (PDict (apply_custom (custom_values v) obj (dict_of_pairs ps))))"

text \<open>A loop that appends one result per row and stops at the first exception.\<close>

fun map_rows :: "(row \<Rightarrow> error + 'a) \<Rightarrow> row list \<Rightarrow> error + 'a list" where
  "map_rows f [] = Inr []"
| "map_rows f (obj # objs) =
     (case f obj of
        Inl e \<Rightarrow> Inl e
      | Inr x \<Rightarrow>
          (case map_rows f objs of
             Inl e \<Rightarrow> Inl e
           | Inr xs \<Rightarrow> Inr (x # xs)))"

text \<open>
  \<^verbatim>\<open>list(qs.values(*names))\<close>. Django resolves the names against the model when
  \<^verbatim>\<open>values\<close> is called, so an unknown name raises \<^verbatim>\<open>FieldError\<close> whatever the rows are;
  with no names every column is returned.
\<close>

fun read_columns :: "row \<Rightarrow> string list \<Rightarrow> error + (string \<times> pyvalue) list" where
  "read_columns obj [] = Inr []"
| "read_columns obj (name # names) =
     (case map_of (columns obj) name of
        None \<Rightarrow> Inl FieldError
      | Some v \<Rightarrow>
          (case read_columns obj names of
             Inl e \<Rightarrow> Inl e
           | Inr ps \<Rightarrow> Inr ((name, v) # ps)))"

definition values_row :: "string list \<Rightarrow> row \<Rightarrow> error + pyvalue" where
  "values_row names obj =
     (if names = [] then Inr (PDict (columns obj))
      else (case read_columns obj names of
              Inl e \<Rightarrow> Inl e
            | Inr ps \<Rightarrow> Inr (PDict (dict_of_pairs ps))))"

definition qs_values :: "string list \<Rightarrow> row list \<Rightarrow> string list \<Rightarrow> error + pyvalue list" where
  "qs_values model rs names =
     (if \<exists>f \<in> set names. f \<notin> set model then Inl FieldError
      else map_rows (values_row names) rs)"

definition get_values :: "view \<Rightarrow> queryset \<Rightarrow> error + pyvalue list" where
  "get_values v qs =
     (case values_override v of
        Some f \<Rightarrow> Inr (map f (qs_rows qs))
      | None \<Rightarrow>
          if custom_values v \<noteq> [] \<or> \<not> has_values qs
          then map_rows (row_vals v) (qs_rows qs)
          else qs_values (model_fields v) (qs_rows qs) (serialize_fields v))"

section \<open>Serialization with pagination\<close>

text \<open>
  \<^verbatim>\<open>serialize_qs(queryset, single_object)\<close>. \<^verbatim>\<open>self.kwargs\<close> and \<^verbatim>\<open>self.request\<close> are
  the URL keyword arguments and the request of the call being handled.
\<close>

definition serialize_qs ::
  "view \<Rightarrow> (string \<rightharpoonup> pyvalue) \<Rightarrow> request \<Rightarrow> queryset \<Rightarrow> bool \<Rightarrow> error + string" where
  "serialize_qs v kwargs req queryset single_object =
     (if single_object \<or> truthy_get kwargs (pk v) then
        (case qs_slice queryset 0 1 of
           Inl e \<Rightarrow> Inl e
         | Inr first \<Rightarrow>
             (case get_values v first of
                Inl e \<Rightarrow> Inl e
              | Inr [] \<Rightarrow> Inl IndexError
              | Inr (data # _) \<Rightarrow> Inr (json_encoder v data)))
      else
        (case (case page_size v of
                 None \<Rightarrow> Inr queryset
               | Some S \<Rightarrow>
                   (let offset = page_offset v req S
                    in qs_slice queryset offset (offset + S))) of
           Inl e \<Rightarrow> Inl e
         | Inr queryset' \<Rightarrow>
             (case get_values v queryset' of
                Inl e \<Rightarrow> Inl e
              | Inr vals \<Rightarrow> Inr (json_encoder v (PList vals)))))"


section \<open>The handlers\<close>

text \<open>\<^verbatim>\<open>success_response\<close>: the JSON text with the JSON mimetype and the default status.\<close>

definition success_response :: "string \<Rightarrow> http_response" where
  "success_response output =
     \<lparr>content = output, status = 200, mimetype = Some ''application/json''\<rparr>"

text \<open>\<^verbatim>\<open>HttpResponse(text, status=code)\<close>, as the handlers build their refusals.\<close>

definition HttpResponse :: "string \<Rightarrow> int \<Rightarrow> http_response" where
  "HttpResponse text code = \<lparr>content = text, status = code, mimetype = None\<rparr>"

definition validation_error_response :: "form_errors \<Rightarrow> http_response" where
  "validation_error_response form_errs =
     HttpResponse (''<p>ERROR: validation failed</p>'' @ error_str form_errs) 400"

text \<open>
  \<^verbatim>\<open>get_single_item\<close>. \<^verbatim>\<open>len(qs)\<close> evaluates the filtered queryset; a failed
  \<^verbatim>\<open>assert\<close> is turned into \<^verbatim>\<open>Http404\<close>. A missing key in \<^verbatim>\<open>kwargs\<close> is a
  \<^verbatim>\<open>KeyError\<close>, which the \<^verbatim>\<open>except\<close> clause does not catch.
\<close>

definition get_single_item ::
  "view \<Rightarrow> row list \<Rightarrow> request \<Rightarrow> (string \<rightharpoonup> pyvalue) \<Rightarrow> error + http_response" where
  "get_single_item v db req kwargs =
     (case kwargs (pk v) of
        None \<Rightarrow> Inl KeyError
      | Some k \<Rightarrow>
          (let qs = evaluated (qs_filter_pk db k) in
           if length (qs_rows qs) \<noteq> 1 then Inl Http404
           else (case serialize_qs v kwargs req qs False of
                   Inl e \<Rightarrow> Inl e
                 | Inr output \<Rightarrow> Inr (success_response output))))"

definition get_collection ::
  "view \<Rightarrow> row list \<Rightarrow> request \<Rightarrow> (string \<rightharpoonup> pyvalue) \<Rightarrow> error + http_response" where
  "get_collection v db req kwargs =
     (let qs = QuerySet False db in
      case serialize_qs v kwargs req qs False of
        Inl e \<Rightarrow> Inl e
      | Inr output \<Rightarrow> Inr (success_response output))"

definition get ::
  "view \<Rightarrow> row list \<Rightarrow> request \<Rightarrow> (string \<rightharpoonup> pyvalue) \<Rightarrow> error + http_response" where
  "get v db req kwargs =
     (if truthy_get kwargs (pk v) then get_single_item v db req kwargs
      else get_collection v db req kwargs)"

text \<open>
  Building the form: the class is called on the decoded body (and the instance, for
  an edit), and \<^verbatim>\<open>set_request\<close> is called when the form has that attribute.
\<close>

definition bind_form ::
  "form_class \<Rightarrow> pyvalue \<Rightarrow> row option \<Rightarrow> request \<Rightarrow> row list \<Rightarrow> form" where
  "bind_form fc request_dict inst req db =
     construct fc request_dict inst (if has_set_request fc then Some req else None) db"

text \<open>
  The common tail of \<^verbatim>\<open>post\<close> and \<^verbatim>\<open>put\<close>: save and serialize the saved object
  alone, or report the form's errors. The second component is the table afterwards.
\<close>

definition finish_form ::
  "view \<Rightarrow> row list \<Rightarrow> request \<Rightarrow> (string \<rightharpoonup> pyvalue) \<Rightarrow> form
     \<Rightarrow> (error + http_response) \<times> row list" where
  "finish_form v db req kwargs frm =
     (if is_valid frm then
        (case save frm of
           (obj, db') \<Rightarrow>
             (case serialize_qs v kwargs req (PyList [obj]) True of
                Inl e \<Rightarrow> (Inl e, db')
              | Inr output \<Rightarrow> (Inr (success_response output), db')))
      else (Inr (validation_error_response (errors frm)), db))"

definition post ::
  "view \<Rightarrow> row list \<Rightarrow> request \<Rightarrow> (string \<rightharpoonup> pyvalue)
     \<Rightarrow> (error + http_response) \<times> row list" where
  "post v db req kwargs =
     (case add_form_class v of
        None \<Rightarrow> (Inr (HttpResponse ''POST not supported'' 405), db)
      | Some fc \<Rightarrow>
          (case json_decoder v (body req) of
             None \<Rightarrow> (Inr (HttpResponse ''Invalid POST JSON'' 400), db)
           | Some request_dict \<Rightarrow>
               finish_form v db req kwargs (bind_form fc request_dict None req db)))"

text \<open>
  \<^verbatim>\<open>put\<close>. Inside the \<^verbatim>\<open>try\<close> the body is decoded first and the instance fetched
  second; \<^verbatim>\<open>MultipleObjectsReturned\<close> is not caught.
\<close>

definition put ::
  "view \<Rightarrow> row list \<Rightarrow> request \<Rightarrow> (string \<rightharpoonup> pyvalue)
     \<Rightarrow> (error + http_response) \<times> row list" where
  "put v db req kwargs =
     (case (edit_form_class v, kwargs (pk v)) of
        (Some fc, Some k) \<Rightarrow>
          (case json_decoder v (body req) of
             None \<Rightarrow> (Inr (HttpResponse ''Invalid PUT JSON'' 400), db)
           | Some request_dict \<Rightarrow>
               (case qs_get_pk db k of
                  Inl ObjectDoesNotExist \<Rightarrow> (Inl Http404, db)
                | Inl e \<Rightarrow> (Inl e, db)
                | Inr inst \<Rightarrow>
                    finish_form v db req kwargs
                      (bind_form fc request_dict (Some inst) req db)))
      | _ \<Rightarrow> (Inr (HttpResponse ''PUT not supported'' 405), db))"

text \<open>
  \<^verbatim>\<open>delete\<close>. The truth test \<^verbatim>\<open>if qs:\<close> evaluates the filtered queryset; the
  serialization is computed before \<^verbatim>\<open>qs.delete()\<close>, so an exception in it leaves the
  table as it was.
\<close>

definition delete ::
  "view \<Rightarrow> row list \<Rightarrow> request \<Rightarrow> (string \<rightharpoonup> pyvalue)
     \<Rightarrow> (error + http_response) \<times> row list" where
  "delete v db req kwargs =
     (case kwargs (pk v) of
        None \<Rightarrow> (Inr (HttpResponse ''DELETE is not supported for collections'' 405), db)
      | Some k \<Rightarrow>
          (let qs = evaluated (qs_filter_pk db k) in
           if qs_rows qs \<noteq> [] then
             (case serialize_qs v kwargs req qs False of
                Inl e \<Rightarrow> (Inl e, db)
              | Inr output \<Rightarrow> (Inr (success_response output), qs_delete_pk db k))
           else (Inl Http404, db)))"

text \<open>
  The four methods the class implements, as the framework's \<^verbatim>\<open>View.dispatch\<close> routes
  them by name.
\<close>

datatype http_method = M_GET | M_POST | M_PUT | M_DELETE

fun dispatch ::
  "http_method \<Rightarrow> view \<Rightarrow> row list \<Rightarrow> request \<Rightarrow> (string \<rightharpoonup> pyvalue)
     \<Rightarrow> (error + http_response) \<times> row list" where
  "dispatch M_GET v db req kwargs = (get v db req kwargs, db)"
| "dispatch M_POST v db req kwargs = post v db req kwargs"
| "dispatch M_PUT v db req kwargs = put v db req kwargs"
| "dispatch M_DELETE v db req kwargs = delete v db req kwargs"

text \<open>
  The status the client sees: the response's own, 404 for \<^verbatim>\<open>Http404\<close>, and a server
  error for any other exception.
\<close>

fun http_status :: "error + http_response \<Rightarrow> int" where
  "http_status (Inr r) = status r"
| "http_status (Inl Http404) = 404"
| "http_status (Inl e) = 500"


section \<open>A worked configuration\<close>

text \<open>
  A small table, a view over it and a form, used to run the handlers on concrete
  requests. \<open>json_encoder\<close> and \<open>json_decoder\<close> are attributes a subclass may override;
  the view below configures a plain encoder that writes null, booleans, integers,
  strings, lists and dictionaries (anything else as null), and a decoder that accepts
  the two bodies the examples send and rejects every other text.
\<close>

definition int_text :: "int \<Rightarrow> string" where
  "int_text i = (if i < 0 then CHR ''-'' # nat_digits (nat (- i)) else nat_digits (nat i))"

fun join :: "string \<Rightarrow> string list \<Rightarrow> string" where
  "join sep [] = []"
| "join sep [x] = x"
| "join sep (x # y # ys) = x @ sep @ join sep (y # ys)"

definition quoted :: "string \<Rightarrow> string" where
  "quoted s = CHR 0x22 # s @ [CHR 0x22]"

fun plain_encoder :: "pyvalue \<Rightarrow> string" where
  "plain_encoder PNone = ''null''"
| "plain_encoder (PBool b) = (if b then ''true'' else ''false'')"
| "plain_encoder (PInt i) = int_text i"
| "plain_encoder (PStr s) = quoted s"
| "plain_encoder (PList xs) = ''['' @ join '', '' (map plain_encoder xs) @ '']''"
| "plain_encoder (PDict kvs) =
     ''{'' @ join '', '' (map (\<lambda>p. quoted (fst p) @ '': '' @ plain_encoder (snd p)) kvs) @ ''}''"
| "plain_encoder v = ''null''"

definition plain_decoder :: "string \<Rightarrow> pyvalue option" where
  "plain_decoder s =
     (if s = ''{}'' then Some (PDict [])
      else if s = ''{name: Bo}'' then Some (PDict [(''name'', PStr ''Bo'')])
      else None)"

definition person :: "int \<Rightarrow> string \<Rightarrow> int \<Rightarrow> row" where
  "person key name age =
     \<lparr>row_pk = PInt key, columns = [(''name'', PStr name), (''age'', PInt age)], props = []\<rparr>"

definition people :: "row list" where
  "people = [person 1 ''Ann'' 30, person 2 ''Bo'' 41, person 3 ''Cy'' 25]"

text \<open>A form that demands a \<^verbatim>\<open>name\<close>: valid input is saved as a new row, or over the
  instance being edited.\<close>

definition name_required :: form_errors where
  "name_required =
     \<lparr>error_map = [(''name'', [''This field is required.''])],
      error_str = ''<ul><li>name<ul><li>This field is required.</li></ul></li></ul>''\<rparr>"

definition name_form :: form_class where
  "name_form =
     \<lparr>has_set_request = False,
      construct = (\<lambda>request_dict inst req db.
        (case request_dict of
           PDict kvs \<Rightarrow>
             (case map_of kvs ''name'' of
                Some (PStr n) \<Rightarrow>
                  (case inst of
                     None \<Rightarrow>
                       (let obj = person (int (length db) + 1) n 0
                        in \<lparr>is_valid = True, save = (obj, db @ [obj]),
                            errors = \<lparr>error_map = [], error_str = []\<rparr>\<rparr>)
                   | Some old \<Rightarrow>
                       (let obj = old\<lparr>columns := dict_set (columns old) ''name'' (PStr n)\<rparr>
                        in \<lparr>is_valid = True,
                            save = (obj, map (\<lambda>r. if row_pk r = row_pk old then obj else r) db),
                            errors = \<lparr>error_map = [], error_str = []\<rparr>\<rparr>))
              | _ \<Rightarrow> \<lparr>is_valid = False, save = (person 0 [] 0, db), errors = name_required\<rparr>)
         | _ \<Rightarrow> \<lparr>is_valid = False, save = (person 0 [] 0, db), errors = name_required\<rparr>))\<rparr>"

definition people_view :: view where
  "people_view =
     \<lparr>model_fields = [''name'', ''age''],
      serialize_fields = [''name'', ''age''],
      custom_values = [],
      values_override = None,
      pk = ''id'',
      page_size = Some 2,
      page_param_name = ''p'',
      add_form_class = Some name_form,
      edit_form_class = Some name_form,
      json_encoder = plain_encoder,
      json_decoder = plain_decoder\<rparr>"

definition page_request :: "string \<Rightarrow> request" where
  "page_request p = \<lparr>GET = [''p'' \<mapsto> p], body = []\<rparr>"

definition body_request :: "string \<Rightarrow> request" where
  "body_request b = \<lparr>GET = Map.empty, body = b\<rparr>"

text \<open>A URL that captured nothing.\<close>

definition no_kwargs :: "string \<rightharpoonup> pyvalue" where
  "no_kwargs = Map.empty"

text \<open>The same view with neither form class configured.\<close>

definition readonly_view :: view where
  "readonly_view = people_view\<lparr>add_form_class := None, edit_form_class := None\<rparr>"

text \<open>Two variants: one masks a field through \<open>custom_values\<close>, one replaces the
  whole projection through \<open>values_override\<close>.\<close>

definition masked_view :: view where
  "masked_view = people_view\<lparr>custom_values := [(''age'', \<lambda>obj. PStr ''hidden'')]\<rparr>"

definition keys_view :: view where
  "keys_view = people_view\<lparr>values_override := Some (\<lambda>obj. PDict [(''key'', row_pk obj)])\<rparr>"

section \<open>Rounding to the nearest double\<close>

lemma bit_length_upper: "n < 2 ^ bit_length n"
proof (induction n rule: bit_length.induct)
  case (1 n)
  show ?case
  proof (cases "n = 0")
    case True
    then show ?thesis by (simp add: bit_length.simps)
  next
    case False
    with 1 have "n div 2 < 2 ^ bit_length (n div 2)" by simp
    then have "n < 2 * 2 ^ bit_length (n div 2)" by linarith
    with False show ?thesis by (simp add: bit_length.simps [of n])
  qed
qed

lemma bit_length_lower: "0 < n \<Longrightarrow> 2 ^ (bit_length n - 1) \<le> n"
proof (induction n rule: bit_length.induct)
  case (1 n)
  then have pos: "n \<noteq> 0" by simp
  show ?case
  proof (cases "n div 2 = 0")
    case True
    with pos show ?thesis by (simp add: bit_length.simps [of n] bit_length.simps [of 0])
  next
    case False
    with 1 pos have ih: "2 ^ (bit_length (n div 2) - 1) \<le> n div 2" by simp
    from False have "bit_length (n div 2) \<noteq> 0" by (simp add: bit_length.simps [of "n div 2"])
    then obtain b where b: "bit_length (n div 2) = Suc b" by (cases "bit_length (n div 2)") auto
    with ih have "2 * 2 ^ b \<le> n" by simp
    with pos b show ?thesis by (simp add: bit_length.simps [of n])
  qed
qed

lemma round_half_even_cases:
  "(round_half_even n d = n div d \<and> 2 * (n mod d) \<le> d)
   \<or> (round_half_even n d = n div d + 1 \<and> d \<le> 2 * (n mod d))"
  by (auto simp: round_half_even_def Let_def)

lemma round_half_even_nearest:
  assumes d: "0 < d"
  shows "\<bar>int (round_half_even n d * d) - int n\<bar> \<le> \<bar>int (j * d) - int n\<bar>"
proof -
  define a r where "a = n div d" and "r = n mod d"
  have n: "n = a * d + r" and r: "r < d" using d by (simp_all add: a_def r_def)
  have other: "int r \<le> \<bar>int (j * d) - int n\<bar> \<or> int d - int r \<le> \<bar>int (j * d) - int n\<bar>"
    and both: "j \<le> a \<longrightarrow> int r \<le> \<bar>int (j * d) - int n\<bar>"
              "a < j \<longrightarrow> int d - int r \<le> \<bar>int (j * d) - int n\<bar>"
  proof -
    show lo: "j \<le> a \<longrightarrow> int r \<le> \<bar>int (j * d) - int n\<bar>"
    proof
      assume "j \<le> a"
      then obtain i where "a = j + i" by (metis le_Suc_ex)
      then have "int n = int (j * d) + int (i * d) + int r"
        by (simp add: n algebra_simps)
      then show "int r \<le> \<bar>int (j * d) - int n\<bar>" by linarith
    qed
    show hi: "a < j \<longrightarrow> int d - int r \<le> \<bar>int (j * d) - int n\<bar>"
    proof
      assume "a < j"
      then obtain i where "j = a + 1 + i" by (metis Suc_eq_plus1 less_iff_Suc_add add.assoc add.commute)
      then have "int (j * d) = int (a * d) + int d + int (i * d)"
        by (simp add: algebra_simps)
      with n r show "int d - int r \<le> \<bar>int (j * d) - int n\<bar>" by linarith
    qed
    from lo hi show "int r \<le> \<bar>int (j * d) - int n\<bar> \<or> int d - int r \<le> \<bar>int (j * d) - int n\<bar>"
      by (cases "j \<le> a") auto
  qed
  have n': "int n = int (a * d) + int r" using n by simp
  from round_half_even_cases [of n d] show ?thesis
  proof
    assume "round_half_even n d = n div d \<and> 2 * (n mod d) \<le> d"
    then have ma: "round_half_even n d = a" and le: "2 * r \<le> d"
      by (simp_all add: a_def r_def)
    have m: "int (round_half_even n d * d) - int n = - int r"
      unfolding ma using n' by linarith
    from both le show ?thesis unfolding m by (cases "j \<le> a") auto
  next
    assume "round_half_even n d = n div d + 1 \<and> d \<le> 2 * (n mod d)"
    then have ma: "round_half_even n d = a + 1" and le: "d \<le> 2 * r"
      by (simp_all add: a_def r_def)
    have "int ((a + 1) * d) = int (a * d) + int d" by (simp add: algebra_simps)
    then have m: "int (round_half_even n d * d) - int n = int d - int r"
      unfolding ma using n' by linarith
    from both le r show ?thesis unfolding m by (cases "j \<le> a") auto
  qed
qed

lemma round_half_even_le: "round_half_even n d \<le> n div d + 1"
  using round_half_even_cases [of n d] by auto

lemma below_power_bit_length:
  assumes "0 < d"
  shows "n < 2 ^ bit_length (n div d) * d"
proof -
  have "n div d + 1 \<le> 2 ^ bit_length (n div d)"
    using bit_length_upper [of "n div d"] by simp
  then have "(n div d + 1) * d \<le> 2 ^ bit_length (n div d) * d"
    by (rule mult_le_mono1)
  moreover have "n < (n div d + 1) * d"
    using assms by (metis Suc_eq_plus1 dividend_less_div_times mult.commute mult_Suc add.commute)
  ultimately show ?thesis by linarith
qed

lemma nearest_units_bound:
  assumes d: "0 < d" and u: "nearest_units n d = (m, k)"
  shows "m \<le> 2 ^ 53"
proof -
  define L where "L = bit_length (n div d)"
  define top :: nat where "top = 2 ^ 53"
  define dk where "dk = d * 2 ^ k"
  from u have k: "k = L - 53" and m: "m = round_half_even n dk"
    by (auto simp: nearest_units_def Let_def L_def dk_def)
  have dk: "0 < dk" using d by (simp add: dk_def)
  have lt: "n < 2 ^ L * d" unfolding L_def by (rule below_power_bit_length [OF d])
  have "2 ^ L * d \<le> top * dk"
  proof (cases "53 \<le> L")
    case True
    then have "L = 53 + k" using k by simp
    then have "(2::nat) ^ L = top * 2 ^ k" by (simp add: power_add top_def)
    then show ?thesis by (simp add: dk_def mult_ac)
  next
    case False
    then have k0: "k = 0" and "L \<le> 53" using k by simp_all
    then have "(2::nat) ^ L \<le> top" unfolding top_def by (intro power_increasing) simp_all
    then have "2 ^ L * d \<le> top * d" by (rule mult_le_mono1)
    moreover have "dk = d" using k0 by (simp add: dk_def)
    ultimately show ?thesis by simp
  qed
  with lt have "n < top * dk" by linarith
  then have "n div dk < top"
    using dk by (simp add: div_less_iff_less_mult)
  with round_half_even_le [of n dk] m have "m \<le> top" by linarith
  then show ?thesis by (simp add: top_def)
qed

lemma nearest_units_nearest:
  assumes d: "0 < d" and u: "nearest_units n d = (m, k)" and m': "m' < 2 ^ 53"
  shows "\<bar>int (m * 2 ^ k * d) - int n\<bar> \<le> \<bar>int (m' * 2 ^ k' * d) - int n\<bar>"
proof -
  define L where "L = bit_length (n div d)"
  define dk where "dk = d * 2 ^ k"
  from u have k: "k = L - 53" and m: "m = round_half_even n dk"
    by (auto simp: nearest_units_def Let_def L_def dk_def)
  have dk: "0 < dk" using d by (simp add: dk_def)
  have grid: "\<bar>int (m * 2 ^ k * d) - int n\<bar> \<le> \<bar>int (j * dk) - int n\<bar>" for j
  proof -
    have e: "m * 2 ^ k * d = round_half_even n dk * dk" by (simp add: dk_def m mult_ac)
    show ?thesis unfolding e by (rule round_half_even_nearest [OF dk])
  qed
  show ?thesis
  proof (cases "k \<le> k'")
    case True
    then obtain i where "k' = k + i" by (metis le_Suc_ex)
    then have e: "m' * 2 ^ k' * d = (m' * 2 ^ i) * dk"
      by (simp add: dk_def power_add mult_ac)
    show ?thesis unfolding e by (rule grid)
  next
    case False
    then have kk: "k' + 1 \<le> k" by simp
    with k have L: "L = 53 + k" and Lpos: "L \<noteq> 0" by simp_all
    have tpos: "0 < n div d"
      using Lpos by (cases "n div d = 0") (simp_all add: L_def bit_length.simps [of 0])
    from bit_length_lower [OF tpos] have "2 ^ (L - 1) \<le> n div d" by (simp add: L_def)
    moreover have "L - 1 = 52 + k" using L by simp
    ultimately have "2 ^ 52 * 2 ^ k \<le> n div d" by (simp add: power_add)
    then have "2 ^ 52 * 2 ^ k * d \<le> (n div d) * d" by (rule mult_le_mono1)
    also have "\<dots> \<le> n" by simp
    finally have base: "2 ^ 52 * dk \<le> n" by (simp add: dk_def mult_ac)
    from kk obtain i where i: "k = k' + 1 + i" by (metis le_Suc_ex)
    have "m' * 2 ^ k' \<le> 2 ^ 53 * 2 ^ k'" using m' by simp
    also have "\<dots> = 2 ^ 52 * 2 ^ (k' + 1)" by simp
    also have "\<dots> \<le> 2 ^ 52 * 2 ^ k"
      using kk by (intro mult_le_mono2 power_increasing) simp_all
    finally have "m' * 2 ^ k' * d \<le> 2 ^ 52 * 2 ^ k * d" by (rule mult_le_mono1)
    then have g: "m' * 2 ^ k' * d \<le> 2 ^ 52 * dk" by (simp add: dk_def mult_ac)
    from grid [of "2 ^ 52"] base g show ?thesis by linarith
  qed
qed

lemma nearest_units_overflow:
  assumes d: "0 < d" and u: "nearest_units n d = (m, k)"
    and big: "(m = 2 ^ 53 \<and> 2045 \<le> k) \<or> 2045 < k"
  shows "(2 ^ 54 - 1) * 2 ^ 2045 * d \<le> 2 * n"
proof -
  define L where "L = bit_length (n div d)"
  define dk where "dk = d * 2 ^ k"
  define top :: nat where "top = 2 ^ 53"
  define lim :: nat where "lim = 2 ^ 2045"
  from u have k: "k = L - 53" and m: "m = round_half_even n dk"
    by (auto simp: nearest_units_def Let_def L_def dk_def)
  have n: "n = (n div dk) * dk + n mod dk" by simp
  have goal: "(2 ^ 54 - 1) * 2 ^ 2045 * d = (2 * top - 1) * (lim * d)"
    by (simp add: top_def lim_def)
  from big have "(2 * top - 1) * (lim * d) \<le> 2 * n"
  proof
    assume h: "m = 2 ^ 53 \<and> 2045 \<le> k"
    then have mt: "m = top" by (simp add: top_def)
    from h have "lim \<le> 2 ^ k" unfolding lim_def by (intro power_increasing) simp_all
    then have "lim * d \<le> dk" by (simp add: dk_def mult.commute)
    then have scale: "(2 * top - 1) * (lim * d) \<le> (2 * top - 1) * dk"
      by (rule mult_le_mono2)
    from round_half_even_cases [of n dk] have "(2 * top - 1) * dk \<le> 2 * n"
    proof
      assume "round_half_even n dk = n div dk \<and> 2 * (n mod dk) \<le> dk"
      with m mt have "n div dk = top" by simp
      with n have "top * dk \<le> n" by (metis le_add1)
      then have "2 * (top * dk) \<le> 2 * n" by simp
      moreover have "(2 * top - 1) * dk \<le> (2 * top) * dk"
        by (intro mult_le_mono1) simp
      moreover have "(2 * top) * dk = 2 * (top * dk)" by (simp only: mult.assoc)
      ultimately show ?thesis by linarith
    next
      assume c: "round_half_even n dk = n div dk + 1 \<and> dk \<le> 2 * (n mod dk)"
      with m mt have a: "n div dk + 1 = top" by simp
      then have "2 * top - 1 = 2 * (n div dk) + 1" by linarith
      then have "(2 * top - 1) * dk = 2 * ((n div dk) * dk) + dk"
        by (simp add: algebra_simps)
      also have "\<dots> \<le> 2 * ((n div dk) * dk) + 2 * (n mod dk)" using c by simp
      also have "\<dots> = 2 * n" using n by linarith
      finally show ?thesis .
    qed
    with scale show ?thesis by linarith
  next
    assume far: "2045 < k"
    with k have L: "L = 53 + k" and Lpos: "L \<noteq> 0" by simp_all
    have tpos: "0 < n div d"
      using Lpos by (cases "n div d = 0") (simp_all add: L_def bit_length.simps [of 0])
    from bit_length_lower [OF tpos] have "2 ^ (L - 1) \<le> n div d" by (simp add: L_def)
    moreover have "L - 1 = k + 52" using L by simp
    ultimately have low: "2 ^ k * 2 ^ 52 \<le> n div d" by (simp add: power_add)
    from far have "Suc 2045 \<le> k" by simp
    then have "(2::nat) ^ Suc 2045 \<le> 2 ^ k" by (intro power_increasing) simp_all
    moreover have "lim * 2 = 2 ^ Suc 2045" unfolding lim_def by (simp only: power_Suc mult.commute)
    ultimately have "lim * 2 \<le> 2 ^ k" by (simp only:)
    then have "lim * 2 * 2 ^ 52 \<le> 2 ^ k * 2 ^ 52" by (rule mult_le_mono1)
    moreover have "lim * 2 * 2 ^ 52 = lim * top" unfolding top_def by simp
    ultimately have "lim * top \<le> n div d" using low by linarith
    then have "lim * top * d \<le> (n div d) * d" by (rule mult_le_mono1)
    also have "\<dots> \<le> n" by simp
    finally have "2 * (lim * top * d) \<le> 2 * n" by simp
    moreover have "(2 * top - 1) * (lim * d) \<le> (2 * top) * (lim * d)"
      by (intro mult_le_mono1) simp
    moreover have "(2 * top) * (lim * d) = 2 * (lim * top * d)" by (simp only: mult_ac)
    ultimately show ?thesis by linarith
  qed
  then show ?thesis unfolding goal .
qed

lemma scaled_den_pos: "0 < scaled_den x"
  by (simp add: scaled_den_def)

lemma pow2_units: "(2::rat) powi (int k - 1074) = 2 ^ k / 2 ^ 1074"
  using power_int_diff [of "2::rat" "int k" 1074] by simp

lemma decimal_units:
  "of_nat c * (10::rat) powi x = of_nat (scaled_num c x) / (of_nat (scaled_den x) * 2 ^ 1074)"
proof (cases "0 \<le> x")
  case True
  then have "(10::rat) powi x = 10 ^ nat x" by (simp add: power_int_def)
  with True show ?thesis by (simp add: scaled_num_def scaled_den_def)
next
  case False
  then have "(10::rat) powi x = 1 / 10 ^ nat (- x)" by (simp add: power_int_def field_simps)
  with False show ?thesis by (simp add: scaled_num_def scaled_den_def)
qed

lemma units_distance:
  assumes "0 < d"
  shows "\<bar>of_nat m * (2::rat) powi (int k - 1074) - of_nat n / (of_nat d * 2 ^ 1074)\<bar> =
           of_int \<bar>int (m * 2 ^ k * d) - int n\<bar> / (of_nat d * 2 ^ 1074)"
proof -
  define U :: rat where "U = 2 ^ 1074"
  have U: "0 < U" by (simp add: U_def)
  have dpos: "(0::rat) < of_nat d" using assms by simp
  have p: "(2::rat) powi (int k - 1074) = 2 ^ k / U" unfolding U_def by (rule pow2_units)
  have "of_nat m * (2::rat) powi (int k - 1074) - of_nat n / (of_nat d * U) =
          (of_nat m * 2 ^ k * of_nat d - of_nat n) / (of_nat d * U)"
    using U dpos by (simp add: p field_simps)
  also have "of_nat m * 2 ^ k * of_nat d - of_nat n = (of_int (int (m * 2 ^ k * d) - int n) :: rat)"
    by simp
  finally have "\<bar>of_nat m * (2::rat) powi (int k - 1074) - of_nat n / (of_nat d * U)\<bar> =
      \<bar>of_int (int (m * 2 ^ k * d) - int n) / (of_nat d * U)\<bar>"
    by simp
  also have "\<dots> = of_int \<bar>int (m * 2 ^ k * d) - int n\<bar> / (of_nat d * U)"
    using U dpos by (simp add: abs_mult)
  finally show ?thesis unfolding U_def .
qed


lemma magnitude_nearest:
  assumes u: "nearest_units (scaled_num c x) (scaled_den x) = (m, k)"
    and m': "m' < 2 ^ 53" and e': "- 1074 \<le> e'"
  shows "\<bar>of_nat m * (2::rat) powi (int k - 1074) - of_nat c * 10 powi x\<bar>
           \<le> \<bar>of_nat m' * 2 powi e' - of_nat c * 10 powi x\<bar>"
proof -
  define k' where "k' = nat (e' + 1074)"
  have e: "e' = int k' - 1074" using e' by (simp add: k'_def)
  define den :: rat where "den = of_nat (scaled_den x) * 2 ^ 1074"
  have den: "0 < den" using scaled_den_pos [of x] by (simp add: den_def)
  have "\<bar>int (m * 2 ^ k * scaled_den x) - int (scaled_num c x)\<bar>
          \<le> \<bar>int (m' * 2 ^ k' * scaled_den x) - int (scaled_num c x)\<bar>"
    by (rule nearest_units_nearest [OF scaled_den_pos u m'])
  then have "(of_int \<bar>int (m * 2 ^ k * scaled_den x) - int (scaled_num c x)\<bar> :: rat)
          \<le> of_int \<bar>int (m' * 2 ^ k' * scaled_den x) - int (scaled_num c x)\<bar>"
    by (simp only: of_int_le_iff)
  then have "(of_int \<bar>int (m * 2 ^ k * scaled_den x) - int (scaled_num c x)\<bar> :: rat) / den
          \<le> of_int \<bar>int (m' * 2 ^ k' * scaled_den x) - int (scaled_num c x)\<bar> / den"
    using den by (simp only: divide_right_mono less_imp_le)
  then show ?thesis
    unfolding e decimal_units den_def
    by (simp only: units_distance [OF scaled_den_pos])
qed

lemma sign_factor_abs: "\<bar>sign_factor s * a - sign_factor s * b\<bar> = \<bar>a - b\<bar>"
  by (cases s) (simp_all add: sign_factor_def abs_minus_commute)

lemma opposite_sign_far:
  assumes "0 \<le> a" and "0 \<le> b" and "s \<noteq> s'"
  shows "\<bar>0 - b\<bar> \<le> \<bar>sign_factor s' * a - sign_factor s * b\<bar>"
  using assms by (cases s; cases s') (simp_all add: sign_factor_def)

lemma finite_value_nearest:
  assumes u: "nearest_units (scaled_num c x) (scaled_den x) = (m, k)"
    and g: "is_double g"
  shows "\<bar>sign_factor s * (of_nat m * 2 powi (int k - 1074)) - decimal_value s c x\<bar>
           \<le> \<bar>float_value g - decimal_value s c x\<bar>"
proof -
  from g obtain s' m' e' where gf: "g = FFinite s' m' e'"
    and m': "m' < 2 ^ 53" and e': "- 1074 \<le> e'"
    by (cases g) auto
  let ?f = "of_nat m * (2::rat) powi (int k - 1074)"
  let ?q = "of_nat c * (10::rat) powi x"
  let ?g = "of_nat m' * (2::rat) powi e'"
  have near: "\<bar>?f - ?q\<bar> \<le> \<bar>?g - ?q\<bar>" by (rule magnitude_nearest [OF u m' e'])
  have zero: "\<bar>?f - ?q\<bar> \<le> \<bar>0 - ?q\<bar>"
    using magnitude_nearest [OF u, of 0 "- 1074"] by simp
  have qpos: "0 \<le> ?q" and gpos: "0 \<le> ?g" by simp_all
  show ?thesis
  proof (cases "s' = s")
    case True
    with near show ?thesis
      by (simp only: gf float_value.simps decimal_value_def sign_factor_abs)
  next
    case False
    then have "s \<noteq> s'" by simp
    from opposite_sign_far [OF gpos qpos this] zero
    have "\<bar>?f - ?q\<bar> \<le> \<bar>sign_factor s' * ?g - sign_factor s * ?q\<bar>" by linarith
    then show ?thesis
      by (simp only: gf float_value.simps decimal_value_def sign_factor_abs)
  qed
qed

lemma float_of_finite_nearest:
  assumes f: "float_of_finite s c x = FFinite s' m e"
  shows "s' = s \<and> is_double (FFinite s' m e)
     \<and> (\<forall>g. is_double g \<longrightarrow>
           \<bar>float_value (FFinite s' m e) - decimal_value s c x\<bar>
             \<le> \<bar>float_value g - decimal_value s c x\<bar>)"
proof -
  obtain m0 k where u: "nearest_units (scaled_num c x) (scaled_den x) = (m0, k)"
    by (cases "nearest_units (scaled_num c x) (scaled_den x)") auto
  have bound: "m0 \<le> 2 ^ 53" by (rule nearest_units_bound [OF scaled_den_pos u])
  have near: "\<bar>sign_factor s * (of_nat m0 * 2 powi (int k - 1074)) - decimal_value s c x\<bar>
           \<le> \<bar>float_value g - decimal_value s c x\<bar>" if "is_double g" for g
    by (rule finite_value_nearest [OF u that])
  show ?thesis
  proof (cases "m0 = 2 ^ 53")
    case True
    with f u have k: "k < 2045" and r: "s' = s" "m = 2 ^ 52" "e = int k + 1 - 1074"
      by (auto simp: float_of_finite_def split: if_splits)
    have "(2::rat) powi (int k + 1 - 1074) = 2 * 2 powi (int k - 1074)"
      using power_int_add [of "2::rat" "int k - 1074" 1] by (simp add: add.commute)
    then have v: "of_nat m * (2::rat) powi e = of_nat m0 * 2 powi (int k - 1074)"
      by (simp add: r True)
    from k r have "is_double (FFinite s' m e)" by simp
    with near r v show ?thesis by simp
  next
    case False
    with f u have k: "k \<le> 2045" and r: "s' = s" "m = m0" "e = int k - 1074"
      by (auto simp: float_of_finite_def split: if_splits)
    from bound False have "m0 < 2 ^ 53" by simp
    with k r have "is_double (FFinite s' m e)" by simp
    with near r show ?thesis by simp
  qed
qed

lemma float_of_finite_overflow:
  assumes f: "float_of_finite s c x = FInfinity s'"
  shows "s' = s \<and> (2 ^ 54 - 1) * 2 ^ 970 \<le> \<bar>decimal_value s c x\<bar>"
proof -
  obtain m0 k where u: "nearest_units (scaled_num c x) (scaled_den x) = (m0, k)"
    by (cases "nearest_units (scaled_num c x) (scaled_den x)") auto
  from f u have s: "s' = s" and big: "(m0 = 2 ^ 53 \<and> 2045 \<le> k) \<or> 2045 < k"
    by (auto simp: float_of_finite_def split: if_splits)
  define A :: rat where "A = (2 ^ 54 - 1) * 2 ^ 970"
  define U :: rat where "U = 2 ^ 1074"
  define D :: rat where "D = of_nat (scaled_den x)"
  define N :: rat where "N = of_nat (scaled_num c x)"
  have U: "0 < U" and D: "0 < D" using scaled_den_pos [of x] by (simp_all add: U_def D_def)
  have "(2 ^ 54 - 1) * 2 ^ 2045 * scaled_den x \<le> 2 * scaled_num c x"
    by (rule nearest_units_overflow [OF scaled_den_pos u big])
  then have "(of_nat ((2 ^ 54 - 1) * 2 ^ 2045 * scaled_den x) :: rat) \<le> of_nat (2 * scaled_num c x)"
    by (simp only: of_nat_le_iff)
  moreover have "(of_nat ((2 ^ 54 - 1) * 2 ^ 2045 * scaled_den x) :: rat) = 2 * (A * U * D)"
    by (simp add: A_def U_def D_def)
  moreover have "(of_nat (2 * scaled_num c x) :: rat) = 2 * N" by (simp add: N_def)
  ultimately have "A * (D * U) \<le> N" by (simp add: mult_ac)
  then have "A \<le> N / (D * U)" using U D by (simp add: pos_le_divide_eq)
  moreover have "\<bar>decimal_value s c x\<bar> = N / (D * U)"
  proof -
    have "\<bar>decimal_value s c x\<bar> = of_nat c * 10 powi x"
      by (cases s) (simp_all add: decimal_value_def sign_factor_def abs_mult)
    then show ?thesis by (simp only: decimal_units N_def D_def U_def)
  qed
  ultimately show ?thesis using s by (simp add: A_def)
qed

lemma float_of_finite_not_nan: "float_of_finite s c x \<noteq> FNaN"
  by (auto simp: float_of_finite_def split: prod.splits)

section \<open>The shape of the ISO-8601 text\<close>

lemma digit_char: "k < 10 \<Longrightarrow> ''0123456789'' ! k \<in> set ''0123456789''"
  by (rule nth_mem) simp

lemma nat_digits_digits: "set (nat_digits n) \<subseteq> set ''0123456789''"
proof (induction n rule: nat_digits.induct)
  case (1 n)
  show ?case
  proof (cases "n < 10")
    case True
    then show ?thesis using digit_char [of n] by (simp add: nat_digits.simps [of n])
  next
    case False
    with 1 have "set (nat_digits (n div 10)) \<subseteq> set ''0123456789''" by simp
    moreover have "''0123456789'' ! (n mod 10) \<in> set ''0123456789''"
      by (rule digit_char) simp
    ultimately show ?thesis using False by (simp add: nat_digits.simps [of n])
  qed
qed

lemma nat_digits_length: "n < 10 ^ w \<Longrightarrow> 0 < w \<Longrightarrow> length (nat_digits n) \<le> w"
proof (induction n arbitrary: w rule: nat_digits.induct)
  case (1 n)
  show ?case
  proof (cases "n < 10")
    case True
    with 1(3) show ?thesis by (simp add: nat_digits.simps [of n])
  next
    case False
    from 1(3) obtain v where w: "w = Suc v" by (cases w) auto
    with 1(2) have "n div 10 < 10 ^ v" by (simp add: div_less_iff_less_mult mult.commute)
    moreover from False w 1(2) have "0 < v" by (cases v) auto
    ultimately have "length (nat_digits (n div 10)) \<le> v" using 1(1) False by simp
    with False w show ?thesis by (simp add: nat_digits.simps [of n])
  qed
qed

lemma zero_pad_length: "n < 10 ^ w \<Longrightarrow> 0 < w \<Longrightarrow> length (zero_pad w n) = w"
  using nat_digits_length [of n w] by (simp add: zero_pad_def)

lemma zero_pad_digits: "set (zero_pad w n) \<subseteq> set ''0123456789''"
  using nat_digits_digits [of n] by (auto simp: zero_pad_def)

section \<open>One tenth as a double\<close>

lemma bit_length_between:
  assumes lo: "2 ^ n \<le> t" and hi: "t < 2 ^ Suc n"
  shows "bit_length t = Suc n"
proof -
  from lo have pos: "0 < t" by (metis less_le_trans zero_less_numeral zero_less_power)
  from lo bit_length_upper [of t] have "(2::nat) ^ n < 2 ^ bit_length t" by linarith
  then have a: "n < bit_length t" by simp
  from bit_length_lower [OF pos] hi have "(2::nat) ^ (bit_length t - 1) < 2 ^ Suc n" by linarith
  then have "bit_length t - 1 < Suc n"
    by (rule power_less_imp_less_exp [where a = "2::nat", rotated]) simp
  with a show ?thesis by linarith
qed

lemma round_half_even_scale:
  assumes "0 < p"
  shows "round_half_even (a * p) (b * p) = round_half_even a b"
proof -
  have d: "(a * p) div (b * p) = a div b" using assms by simp
  have m: "(a * p) mod (b * p) = (a mod b) * p" using assms by (simp add: mult_mod_left mult.commute)
  have lt: "2 * ((a mod b) * p) < b * p \<longleftrightarrow> 2 * (a mod b) < b"
    using assms by (metis mult.assoc mult_less_cancel2)
  have gt: "b * p < 2 * ((a mod b) * p) \<longleftrightarrow> b < 2 * (a mod b)"
    using assms by (metis mult.assoc mult_less_cancel2)
  show ?thesis by (simp add: round_half_even_def Let_def d m lt gt)
qed

lemma nearest_units_one_tenth: "nearest_units (2 ^ (u + 56)) 10 = (7205759403792794, u)"
proof -
  have "(2::nat) ^ (u + 52) * 10 \<le> 2 ^ (u + 52) * 16" by simp
  also have "\<dots> = 2 ^ (u + 56)" by (simp add: power_add)
  finally have "(2::nat) ^ (u + 52) \<le> 2 ^ (u + 56) div 10"
    by (simp add: less_eq_div_iff_mult_less_eq)
  moreover have "(2::nat) ^ (u + 56) < 2 ^ Suc (u + 52) * 10"
  proof -
    have "(2::nat) ^ (u + 56) = 2 ^ Suc (u + 52) * 8" by (simp add: power_add)
    also have "\<dots> < 2 ^ Suc (u + 52) * 10" by simp
    finally show ?thesis .
  qed
  then have "(2::nat) ^ (u + 56) div 10 < 2 ^ Suc (u + 52)"
    by (simp add: div_less_iff_less_mult)
  ultimately have L: "bit_length (2 ^ (u + 56) div 10) = Suc (u + 52)"
    by (rule bit_length_between)
  have k: "Suc (u + 52) - 53 = u" by simp
  have "round_half_even (2 ^ (u + 56)) (10 * 2 ^ u) = round_half_even (2 ^ 56 * 2 ^ u) (10 * 2 ^ u)"
    by (simp add: power_add mult.commute)
  also have "\<dots> = round_half_even (2 ^ 56) 10" by (rule round_half_even_scale) simp
  also have "\<dots> = 7205759403792794" by (simp add: round_half_even_def Let_def)
  finally have r: "round_half_even (2 ^ (u + 56)) (10 * 2 ^ u) = 7205759403792794" .
  show ?thesis unfolding nearest_units_def Let_def L k r ..
qed

lemma float_of_one_tenth:
  "float_of_finite False 1 (- 1) = FFinite False 7205759403792794 (- 56)"
proof -
  have n: "scaled_num 1 (- 1) = 2 ^ (1018 + 56)" and d: "scaled_den (- 1) = 10"
    by (simp_all add: scaled_num_def scaled_den_def)
  show ?thesis
    unfolding float_of_finite_def n d nearest_units_one_tenth by simp
qed

section \<open>Which exceptions the serialization can raise\<close>

lemma map_rows_Inl: "map_rows f rs = Inl e \<Longrightarrow> \<exists>r \<in> set rs. f r = Inl e"
  by (induction rs) (auto split: sum.splits)

lemma map_rows_length: "map_rows f rs = Inr xs \<Longrightarrow> length xs = length rs"
  by (induction rs arbitrary: xs) (auto split: sum.splits)

lemma read_fields_Inl: "read_fields obj names = Inl e \<Longrightarrow> e = AttributeError"
  by (induction names) (auto simp: getattr_def split: sum.splits option.splits)

lemma read_columns_Inl: "read_columns obj names = Inl e \<Longrightarrow> e = FieldError"
  by (induction names) (auto split: sum.splits option.splits)

lemma row_vals_Inl: "row_vals v obj = Inl e \<Longrightarrow> e = AttributeError"
  by (auto simp: row_vals_def split: sum.splits dest: read_fields_Inl)

lemma values_row_Inl: "values_row names obj = Inl e \<Longrightarrow> e = FieldError"
  by (auto simp: values_row_def split: sum.splits if_splits dest: read_columns_Inl)

lemma get_values_Inl: "get_values v qs = Inl e \<Longrightarrow> e = AttributeError \<or> e = FieldError"
  by (auto simp: get_values_def qs_values_def split: option.splits if_splits
           dest!: map_rows_Inl dest: row_vals_Inl values_row_Inl)

lemma get_values_length: "get_values v qs = Inr vals \<Longrightarrow> length vals = length (qs_rows qs)"
  by (auto simp: get_values_def qs_values_def split: option.splits if_splits
           dest: map_rows_length)

lemma qs_slice_Inl: "qs_slice qs a b = Inl e \<Longrightarrow> e = AssertionError"
  by (cases qs) (auto split: if_splits)

lemma serialize_qs_Inl:
  "serialize_qs v kwargs req qs single = Inl e \<Longrightarrow>
     e = AssertionError \<or> e = AttributeError \<or> e = FieldError \<or> e = IndexError"
  by (auto simp: serialize_qs_def Let_def split: if_splits sum.splits list.splits option.splits
           dest: qs_slice_Inl get_values_Inl)

lemma serialize_qs_not_404: "serialize_qs v kwargs req qs single \<noteq> Inl Http404"
  using serialize_qs_Inl by fastforce

section \<open>Which statuses the handlers can answer with\<close>

lemma http_status_Inl_serialize:
  "serialize_qs v kwargs req qs single = Inl e \<Longrightarrow> http_status (Inl e) = 500"
  by (auto dest!: serialize_qs_Inl)

lemma finish_form_status:
  "http_status (fst (finish_form v db req kwargs frm)) \<in> {200, 400, 500}"
  by (auto simp: finish_form_def success_response_def validation_error_response_def
                 HttpResponse_def
           split: prod.splits sum.splits dest: http_status_Inl_serialize)

lemma finish_form_not_405: "http_status (fst (finish_form v db req kwargs frm)) \<noteq> 405"
  using finish_form_status [of v db req kwargs frm] by auto

lemma get_status: "http_status (get v db req kwargs) \<in> {200, 404, 500}"
  by (auto simp: get_def get_single_item_def get_collection_def success_response_def Let_def
           split: option.splits sum.splits if_splits dest: http_status_Inl_serialize)

lemma post_405_iff:
  "http_status (fst (post v db req kwargs)) = 405 \<longleftrightarrow> add_form_class v = None"
  by (auto simp: post_def HttpResponse_def finish_form_not_405 split: option.splits)

lemma qs_get_pk_status:
  "qs_get_pk db k = Inl e \<Longrightarrow> e = ObjectDoesNotExist \<or> e = MultipleObjectsReturned"
  by (auto simp: qs_get_pk_def split: list.splits)

lemma put_405_iff:
  "http_status (fst (put v db req kwargs)) = 405 \<longleftrightarrow>
     edit_form_class v = None \<or> kwargs (pk v) = None"
  by (auto simp: put_def HttpResponse_def finish_form_not_405
           split: option.splits sum.splits error.splits dest: qs_get_pk_status)

lemma delete_405_iff:
  "http_status (fst (delete v db req kwargs)) = 405 \<longleftrightarrow> kwargs (pk v) = None"
  by (auto simp: delete_def HttpResponse_def success_response_def Let_def
           split: option.splits sum.splits if_splits dest: http_status_Inl_serialize)


section \<open>Dictionaries built by the projection\<close>

lemma map_of_dict_set: "map_of (dict_set d k x) = (map_of d)(k \<mapsto> x)"
  by (induction d k x rule: dict_set.induct) auto

lemma map_of_dict_of_pairs: "map_of (dict_of_pairs ps) = map_of (rev ps)"
  unfolding dict_of_pairs_def
  by (induction ps rule: rev_induct) (auto simp: map_of_dict_set)

lemma map_of_apply_custom:
  "map_of (apply_custom cvs obj vals) name =
     (case map_of (rev cvs) name of
        Some method \<Rightarrow> Some (method obj)
      | None \<Rightarrow> map_of vals name)"
  unfolding apply_custom_def
  by (induction cvs rule: rev_induct) (auto simp: map_of_dict_set)

lemma read_fields_pairs:
  "read_fields obj names = Inr ps \<Longrightarrow>
     map fst ps = names \<and> (\<forall>(n, x) \<in> set ps. getattr obj n = Inr x)"
  by (induction names arbitrary: ps) (auto split: sum.splits)

lemma read_fields_lookup:
  assumes "read_fields obj names = Inr ps" and "name \<in> set names"
  shows "\<exists>x. getattr obj name = Inr x \<and> map_of (rev ps) name = Some x"
proof -
  from read_fields_pairs [OF assms(1)]
  have fst: "map fst ps = names" and all: "\<forall>(n, x) \<in> set ps. getattr obj n = Inr x"
    by auto
  from assms(2) fst have "name \<in> fst ` set (rev ps)" by (metis set_map set_rev)
  then obtain x where x: "map_of (rev ps) name = Some x"
    by (metis domD dom_map_of_conv_image_fst)
  then have "(name, x) \<in> set ps" by (metis map_of_SomeD set_rev)
  with all have "getattr obj name = Inr x" by auto
  with x show ?thesis by blast
qed

section \<open>Serializing a single object\<close>

lemma py_slice_first: "py_slice (r # rest) 0 1 = [r]"
  by (simp add: py_slice_def)

lemma get_values_single:
  "get_values v (PyList [r]) = Inr vals \<Longrightarrow> \<exists>data. vals = [data]"
  by (drule get_values_length) (simp add: length_Suc_conv)

lemma serialize_qs_single:
  "truthy_get kwargs (pk v) \<or> single \<Longrightarrow>
   serialize_qs v kwargs req (QuerySet True (r # rest)) single =
     (case get_values v (PyList [r]) of
        Inl e \<Rightarrow> Inl e
      | Inr vals \<Rightarrow> Inr (json_encoder v (hd vals)))"
  by (auto simp: serialize_qs_def py_slice_first split: sum.splits list.splits
           dest: get_values_single)

section \<open>Slicing a page\<close>

lemma take_drop_window:
  "take (min (i + k) (length xs) - min i (length xs)) (drop (min i (length xs)) xs) =
     take k (drop i xs)"
  by (auto simp: min_def)

lemma py_slice_window:
  assumes "0 \<le> a" and "0 \<le> S"
  shows "py_slice xs a (a + S) = take (nat S) (drop (nat a) xs)"
proof -
  obtain i k where a: "a = int i" and S: "S = int k"
    using assms by (metis nonneg_int_cases)
  have lo: "min (int i) (int (length xs)) = int (min i (length xs))"
    and hi: "min (int i + int k) (int (length xs)) = int (min (i + k) (length xs))"
    by (simp_all add: min_def)
  have n1: "\<not> int i < 0" "\<not> int i + int k < 0" by simp_all
  have d: "nat (int (min (i + k) (length xs)) - int (min i (length xs))) =
             min (i + k) (length xs) - min i (length xs)"
    by arith
  have "py_slice xs (int i) (int i + int k) =
          take (min (i + k) (length xs) - min i (length xs)) (drop (min i (length xs)) xs)"
    unfolding py_slice_def Let_def by (simp only: n1 if_False lo hi d nat_int)
  then show ?thesis by (simp add: a S take_drop_window)
qed

lemma get_collection_page:
  assumes "page_size v = Some S" and "\<not> truthy_get kwargs (pk v)"
  shows "get v db req kwargs =
     (case qs_slice (QuerySet False db) (page_offset v req S) (page_offset v req S + S) of
        Inl e \<Rightarrow> Inl e
      | Inr q \<Rightarrow>
          (case get_values v q of
             Inl e \<Rightarrow> Inl e
           | Inr vals \<Rightarrow> Inr (success_response (json_encoder v (PList vals)))))"
  using assms
  by (simp add: get_def get_collection_def serialize_qs_def Let_def split: sum.splits)

lemma get_values_no_rows:
  "set (serialize_fields v) \<subseteq> set (model_fields v) \<Longrightarrow> get_values v (QuerySet False []) = Inr []"
  by (auto simp: get_values_def qs_values_def split: option.splits)

lemma page_offset_int:
  "GET req (page_param_name v) = Some s \<Longrightarrow> py_int s = Some P \<Longrightarrow>
     page_offset v req S = (P - 1) * S"
  by (simp add: page_offset_def)

lemma page_offset_unparsed:
  "GET req (page_param_name v) = Some s \<Longrightarrow> py_int s = None \<Longrightarrow> page_offset v req S = 0"
  by (simp add: page_offset_def)

lemma get_page_window:
  assumes "page_size v = Some S" and "0 \<le> S" and "\<not> truthy_get kwargs (pk v)"
    and "page_offset v req S = off" and "0 \<le> off"
  shows "get v db req kwargs =
     (case get_values v (QuerySet False (take (nat S) (drop (nat off) db))) of
        Inl e \<Rightarrow> Inl e
      | Inr vals \<Rightarrow> Inr (success_response (json_encoder v (PList vals))))"
  using assms by (simp add: get_collection_page py_slice_window)

lemmas parse_defs = py_int_def strip_def is_space_def digit_of_def

lemmas projection_defs =
  get_values_def row_vals_def getattr_def apply_custom_def dict_of_pairs_def
  qs_values_def values_row_def

lemmas encoder_defs = quoted_def int_text_def nat_digits.simps

lemmas example_defs =
  people_view_def people_def person_def name_form_def name_required_def
  page_request_def body_request_def plain_decoder_def

section \<open>The encoder's fallback\<close>

text \<open>
  C8, as amended. The fallback applies its rules in order. A timestamp is encoded as its
  ISO-8601 text: four digits of year, two of month and two of day joined by hyphens,
  the letter T, and two digits each of hour, minute and second joined by colons, with
  nothing after them for a naive value without microseconds. A finite decimal is
  encoded as a double that no other double is nearer to, or as the infinity of its sign
  when its magnitude is at least \<open>(2 ^ 54 - 1) * 2 ^ 970\<close>, half a step beyond the largest
  double; an infinite decimal as the infinity of its sign, a quiet NaN as NaN. Every
  other value is encoded as null, and no exception is raised for it. The signaling NaN
  is left out of the statement.
\<close>

theorem encoder_fallback_by_kind:
  "DjangboneJSONEncoder_default (PDatetime d) = Inr (PStr (isoformat d))
   \<and> (dt_year d < 10000 \<and> dt_month d < 100 \<and> dt_day d < 100
        \<and> dt_hour d < 100 \<and> dt_minute d < 100 \<and> dt_second d < 100 \<longrightarrow>
       (\<exists>Y M D h mi sec rest.
          isoformat d = Y @ ''-'' @ M @ ''-'' @ D @ ''T'' @ h @ '':'' @ mi @ '':'' @ sec @ rest
          \<and> length Y = 4 \<and> length M = 2 \<and> length D = 2
          \<and> length h = 2 \<and> length mi = 2 \<and> length sec = 2
          \<and> set (Y @ M @ D @ h @ mi @ sec) \<subseteq> set ''0123456789''
          \<and> (dt_microsecond d = 0 \<and> dt_utcoffset d = None \<longrightarrow> rest = [])))
   \<and> (\<exists>f. DjangboneJSONEncoder_default (PDecimal (DFinite s c x)) = Inr (PFloat f)
          \<and> ((is_double f
               \<and> (\<forall>g. is_double g \<longrightarrow>
                     \<bar>float_value f - decimal_value s c x\<bar>
                       \<le> \<bar>float_value g - decimal_value s c x\<bar>))
              \<or> (f = FInfinity s \<and> (2 ^ 54 - 1) * 2 ^ 970 \<le> \<bar>decimal_value s c x\<bar>)))
   \<and> DjangboneJSONEncoder_default (PDecimal (DInfinity s)) = Inr (PFloat (FInfinity s))
   \<and> DjangboneJSONEncoder_default (PDecimal DNaN) = Inr (PFloat FNaN)
   \<and> ((\<forall>t. obj \<noteq> PDatetime t) \<and> (\<forall>q. obj \<noteq> PDecimal q) \<longrightarrow>
        DjangboneJSONEncoder_default obj = Inr PNone)"
proof -
  have shape: "\<exists>Y M D h mi sec rest.
          isoformat d = Y @ ''-'' @ M @ ''-'' @ D @ ''T'' @ h @ '':'' @ mi @ '':'' @ sec @ rest
          \<and> length Y = 4 \<and> length M = 2 \<and> length D = 2
          \<and> length h = 2 \<and> length mi = 2 \<and> length sec = 2
          \<and> set (Y @ M @ D @ h @ mi @ sec) \<subseteq> set ''0123456789''
          \<and> (dt_microsecond d = 0 \<and> dt_utcoffset d = None \<longrightarrow> rest = [])"
    if r: "dt_year d < 10000 \<and> dt_month d < 100 \<and> dt_day d < 100
        \<and> dt_hour d < 100 \<and> dt_minute d < 100 \<and> dt_second d < 100"
  proof -
    let ?Y = "zero_pad 4 (dt_year d)" and ?M = "zero_pad 2 (dt_month d)"
      and ?D = "zero_pad 2 (dt_day d)" and ?h = "zero_pad 2 (dt_hour d)"
      and ?mi = "zero_pad 2 (dt_minute d)" and ?sec = "zero_pad 2 (dt_second d)"
    let ?rest = "(if dt_microsecond d = 0 then [] else ''.'' @ zero_pad 6 (dt_microsecond d))
        @ (case dt_utcoffset d of
             None \<Rightarrow> []
           | Some off \<Rightarrow>
               (if off < 0 then ''-'' else ''+'')
               @ zero_pad 2 (nat \<bar>off\<bar> div 60) @ '':'' @ zero_pad 2 (nat \<bar>off\<bar> mod 60))"
    have eq: "isoformat d =
        ?Y @ ''-'' @ ?M @ ''-'' @ ?D @ ''T'' @ ?h @ '':'' @ ?mi @ '':'' @ ?sec @ ?rest"
      by (simp only: isoformat_def)
    from r have len: "length ?Y = 4" "length ?M = 2" "length ?D = 2"
        "length ?h = 2" "length ?mi = 2" "length ?sec = 2"
      by (simp_all add: zero_pad_length)
    have dig: "set (?Y @ ?M @ ?D @ ?h @ ?mi @ ?sec) \<subseteq> set ''0123456789''"
      using zero_pad_digits by (simp only: set_append Un_subset_iff)
    have none: "dt_microsecond d = 0 \<and> dt_utcoffset d = None \<longrightarrow> ?rest = []"
      by simp
    from eq len dig none show ?thesis by blast
  qed
  have dec: "\<exists>f. DjangboneJSONEncoder_default (PDecimal (DFinite s c x)) = Inr (PFloat f)
          \<and> ((is_double f
               \<and> (\<forall>g. is_double g \<longrightarrow>
                     \<bar>float_value f - decimal_value s c x\<bar>
                       \<le> \<bar>float_value g - decimal_value s c x\<bar>))
              \<or> (f = FInfinity s \<and> (2 ^ 54 - 1) * 2 ^ 970 \<le> \<bar>decimal_value s c x\<bar>))"
  proof (cases "float_of_finite s c x")
    case (FFinite s' m e)
    from float_of_finite_nearest [OF this]
    have "is_double (FFinite s' m e)
      \<and> (\<forall>g. is_double g \<longrightarrow>
            \<bar>float_value (FFinite s' m e) - decimal_value s c x\<bar>
              \<le> \<bar>float_value g - decimal_value s c x\<bar>)"
      by blast
    moreover have "DjangboneJSONEncoder_default (PDecimal (DFinite s c x)) =
        Inr (PFloat (FFinite s' m e))"
      using FFinite by simp
    ultimately show ?thesis by blast
  next
    case (FInfinity s')
    from float_of_finite_overflow [OF this]
    have "FInfinity s' = FInfinity s \<and> (2 ^ 54 - 1) * 2 ^ 970 \<le> \<bar>decimal_value s c x\<bar>"
      by blast
    moreover have "DjangboneJSONEncoder_default (PDecimal (DFinite s c x)) =
        Inr (PFloat (FInfinity s'))"
      using FInfinity by simp
    ultimately show ?thesis by blast
  next
    case FNaN
    with float_of_finite_not_nan show ?thesis by blast
  qed
  have other: "(\<forall>t. obj \<noteq> PDatetime t) \<and> (\<forall>q. obj \<noteq> PDecimal q) \<longrightarrow>
        DjangboneJSONEncoder_default obj = Inr PNone"
    by (cases obj) simp_all
  from shape dec other show ?thesis by simp
qed

theorem encoder_fallback_by_kind_witness:
  "DjangboneJSONEncoder_default (PDatetime (Datetime 2011 3 5 14 7 9 0 None)) =
     Inr (PStr ''2011-03-05T14:07:09'')
   \<and> DjangboneJSONEncoder_default (PDecimal (DFinite False 1 (- 1))) =
     Inr (PFloat (FFinite False 7205759403792794 (- 56)))
   \<and> is_double (FFinite False 7205759403792794 (- 56))
   \<and> \<bar>float_value (FFinite False 7205759403792794 (- 56)) - decimal_value False 1 (- 1)\<bar>
       \<le> \<bar>float_value (FFinite False 7205759403792793 (- 56)) - decimal_value False 1 (- 1)\<bar>
   \<and> \<bar>float_value (FFinite False 7205759403792794 (- 56)) - decimal_value False 1 (- 1)\<bar>
       \<le> \<bar>float_value (FFinite False 7205759403792795 (- 56)) - decimal_value False 1 (- 1)\<bar>
   \<and> DjangboneJSONEncoder_default (PDecimal (DInfinity True)) = Inr (PFloat (FInfinity True))
   \<and> DjangboneJSONEncoder_default (PDecimal DNaN) = Inr (PFloat FNaN)
   \<and> DjangboneJSONEncoder_default (PObject ''set'') = Inr PNone"
proof -
  let ?d = "Datetime 2011 3 5 14 7 9 0 None"
  let ?f = "FFinite False 7205759403792794 (- 56)"
  note w = encoder_fallback_by_kind
    [where d = ?d and s = False and c = 1 and x = "- 1" and obj = "PObject ''set''"]
  have iso: "isoformat ?d = ''2011-03-05T14:07:09''"
    by (simp add: isoformat_def zero_pad_def nat_digits.simps)
  from w iso have c1: "DjangboneJSONEncoder_default (PDatetime ?d) =
     Inr (PStr ''2011-03-05T14:07:09'')"
    by (simp only:)
  have ev: "DjangboneJSONEncoder_default (PDecimal (DFinite False 1 (- 1))) = Inr (PFloat ?f)"
    by (simp only: DjangboneJSONEncoder_default.simps float_of_decimal.simps
          float_of_one_tenth sum.case)
  from w obtain f where f: "DjangboneJSONEncoder_default (PDecimal (DFinite False 1 (- 1)))
        = Inr (PFloat f)"
    and alt: "(is_double f
               \<and> (\<forall>g. is_double g \<longrightarrow>
                     \<bar>float_value f - decimal_value False 1 (- 1)\<bar>
                       \<le> \<bar>float_value g - decimal_value False 1 (- 1)\<bar>))
              \<or> (f = FInfinity False
                  \<and> (2 ^ 54 - 1) * 2 ^ 970 \<le> \<bar>decimal_value False 1 (- 1)\<bar>)"
    by blast
  from f ev have ff: "f = ?f" by simp
  with alt have dbl: "is_double ?f"
    and near: "\<And>g. is_double g \<Longrightarrow>
                 \<bar>float_value ?f - decimal_value False 1 (- 1)\<bar>
                   \<le> \<bar>float_value g - decimal_value False 1 (- 1)\<bar>"
    by auto
  have c4: "\<bar>float_value ?f - decimal_value False 1 (- 1)\<bar>
       \<le> \<bar>float_value (FFinite False 7205759403792793 (- 56)) - decimal_value False 1 (- 1)\<bar>"
    by (rule near) simp
  have c5: "\<bar>float_value ?f - decimal_value False 1 (- 1)\<bar>
       \<le> \<bar>float_value (FFinite False 7205759403792795 (- 56)) - decimal_value False 1 (- 1)\<bar>"
    by (rule near) simp
  from w have c6: "DjangboneJSONEncoder_default (PDecimal (DInfinity True)) = Inr (PFloat (FInfinity True))"
    and c7: "DjangboneJSONEncoder_default (PDecimal DNaN) = Inr (PFloat FNaN)"
    and c8: "DjangboneJSONEncoder_default (PObject ''set'') = Inr PNone"
    by simp_all
  from c1 ev dbl c4 c5 c6 c7 c8 show ?thesis by blast
qed

text \<open>
  C8 as the specification states it (every decimal value is encoded as the nearest
  double) fails for the signaling NaN: \<^verbatim>\<open>float()\<close> raises \<^verbatim>\<open>ValueError\<close> for it, and
  the fallback lets the exception through.
\<close>

theorem signaling_nan_counterexample:
  "DjangboneJSONEncoder_default (PDecimal DSignalingNaN) = Inl ValueError"
  by simp

section \<open>Update decodes the body before it looks the record up\<close>

text \<open>
  C10. For a PUT that passes the two precondition checks, a body the decoder rejects
  gives the response 400 "Invalid PUT JSON" whatever the table holds, and \<^verbatim>\<open>Http404\<close> is
  raised only when the body was decoded and no row has the given key.
\<close>

theorem put_decodes_before_lookup:
  assumes "edit_form_class v = Some fc" and "kwargs (pk v) = Some k"
  shows "(json_decoder v (body req) = None \<longrightarrow>
           put v db req kwargs =
             (Inr \<lparr>content = ''Invalid PUT JSON'', status = 400, mimetype = None\<rparr>, db))
    \<and> (fst (put v db req kwargs) = Inl Http404 \<longrightarrow>
           json_decoder v (body req) \<noteq> None \<and> filter (\<lambda>r. row_pk r = k) db = [])"
  using assms
  by (auto simp: put_def qs_get_pk_def finish_form_def HttpResponse_def serialize_qs_not_404
           split: option.splits sum.splits error.splits list.splits prod.splits if_splits)

theorem put_decodes_before_lookup_witness:
  "put people_view people (body_request ''{name'') [''id'' \<mapsto> PInt 2] =
     (Inr \<lparr>content = ''Invalid PUT JSON'', status = 400, mimetype = None\<rparr>, people)
   \<and> put people_view people (body_request ''{name'') [''id'' \<mapsto> PInt 7] =
     (Inr \<lparr>content = ''Invalid PUT JSON'', status = 400, mimetype = None\<rparr>, people)
   \<and> fst (put people_view people (body_request ''{}'') [''id'' \<mapsto> PInt 7]) = Inl Http404
   \<and> plain_decoder ''{}'' \<noteq> None
   \<and> filter (\<lambda>r. row_pk r = PInt 7) people = []"
proof -
  have a: "edit_form_class people_view = Some name_form" by (simp add: people_view_def)
  have b2: "[''id'' \<mapsto> PInt 2] (pk people_view) = Some (PInt 2)" by (simp add: people_view_def)
  have b7: "[''id'' \<mapsto> PInt 7] (pk people_view) = Some (PInt 7)" by (simp add: people_view_def)
  have bad: "json_decoder people_view (body (body_request ''{name'')) = None"
    by (simp add: people_view_def body_request_def plain_decoder_def)
  have nf: "fst (put people_view people (body_request ''{}'') [''id'' \<mapsto> PInt 7]) = Inl Http404"
    by (simp add: put_def qs_get_pk_def example_defs)
  note inst = put_decodes_before_lookup
    [where v = people_view and fc = name_form and db = people]
  from inst [where kwargs = "[''id'' \<mapsto> PInt 2]" and k = "PInt 2"
               and req = "body_request ''{name''", OF a b2]
       inst [where kwargs = "[''id'' \<mapsto> PInt 7]" and k = "PInt 7"
               and req = "body_request ''{name''", OF a b7]
       inst [where kwargs = "[''id'' \<mapsto> PInt 7]" and k = "PInt 7"
               and req = "body_request ''{}''", OF a b7]
       bad nf
  show ?thesis by (simp add: people_view_def body_request_def)
qed


section \<open>Malformed and rejected bodies\<close>

text \<open>
  C5. For a POST with an add form configured, and for a PUT with an edit form configured
  and an identifier present: a body the decoder rejects gives status 400 with the text
  "Invalid POST JSON" (resp. "Invalid PUT JSON"); a decoded body the form rejects gives
  status 400 with the text \<^verbatim>\<open><p>ERROR: validation failed</p>\<close> followed by the string form
  of the form's errors. For PUT the form is reached once the record has been found.
\<close>

theorem write_errors_are_400:
  "(add_form_class v = Some fc \<longrightarrow>
      (json_decoder v (body req) = None \<longrightarrow>
         post v db req kwargs =
           (Inr \<lparr>content = ''Invalid POST JSON'', status = 400, mimetype = None\<rparr>, db))
    \<and> (\<forall>d. json_decoder v (body req) = Some d
            \<and> \<not> is_valid (bind_form fc d None req db) \<longrightarrow>
         post v db req kwargs =
           (Inr \<lparr>content = ''<p>ERROR: validation failed</p>''
                            @ error_str (errors (bind_form fc d None req db)),
                 status = 400, mimetype = None\<rparr>, db)))
   \<and> (edit_form_class v = Some fc \<and> kwargs (pk v) = Some k \<longrightarrow>
      (json_decoder v (body req) = None \<longrightarrow>
         put v db req kwargs =
           (Inr \<lparr>content = ''Invalid PUT JSON'', status = 400, mimetype = None\<rparr>, db))
    \<and> (\<forall>d inst. json_decoder v (body req) = Some d
            \<and> qs_get_pk db k = Inr inst
            \<and> \<not> is_valid (bind_form fc d (Some inst) req db) \<longrightarrow>
         put v db req kwargs =
           (Inr \<lparr>content = ''<p>ERROR: validation failed</p>''
                            @ error_str (errors (bind_form fc d (Some inst) req db)),
                 status = 400, mimetype = None\<rparr>, db)))"
  by (auto simp: post_def put_def finish_form_def validation_error_response_def HttpResponse_def)

theorem write_errors_are_400_witness:
  "post people_view people (body_request ''{name'') Map.empty =
     (Inr \<lparr>content = ''Invalid POST JSON'', status = 400, mimetype = None\<rparr>, people)
   \<and> post people_view people (body_request ''{}'') Map.empty =
     (Inr \<lparr>content = ''<p>ERROR: validation failed</p><ul><li>name<ul><li>This field is required.</li></ul></li></ul>'',
           status = 400, mimetype = None\<rparr>, people)
   \<and> put people_view people (body_request ''{name'') [''id'' \<mapsto> PInt 2] =
     (Inr \<lparr>content = ''Invalid PUT JSON'', status = 400, mimetype = None\<rparr>, people)
   \<and> put people_view people (body_request ''{}'') [''id'' \<mapsto> PInt 2] =
     (Inr \<lparr>content = ''<p>ERROR: validation failed</p><ul><li>name<ul><li>This field is required.</li></ul></li></ul>'',
           status = 400, mimetype = None\<rparr>, people)"
proof -
  have a: "add_form_class people_view = Some name_form"
    and e: "edit_form_class people_view = Some name_form"
    and k: "[''id'' \<mapsto> PInt 2] (pk people_view) = Some (PInt 2)"
    by (simp_all add: people_view_def)
  have bad: "json_decoder people_view (body (body_request ''{name'')) = None"
    and ok: "json_decoder people_view (body (body_request ''{}'')) = Some (PDict [])"
    by (simp_all add: people_view_def body_request_def plain_decoder_def)
  have g: "qs_get_pk people (PInt 2) = Inr (person 2 ''Bo'' 41)"
    by (simp add: qs_get_pk_def people_def person_def)
  have i1: "\<not> is_valid (bind_form name_form (PDict []) None (body_request ''{}'') people)"
    and i2: "\<not> is_valid (bind_form name_form (PDict []) (Some (person 2 ''Bo'' 41))
                          (body_request ''{}'') people)"
    by (simp_all add: bind_form_def name_form_def)
  have e1: "error_str (errors (bind_form name_form (PDict []) None (body_request ''{}'') people))
              = ''<ul><li>name<ul><li>This field is required.</li></ul></li></ul>''"
    and e2: "error_str (errors (bind_form name_form (PDict []) (Some (person 2 ''Bo'' 41))
                          (body_request ''{}'') people))
              = ''<ul><li>name<ul><li>This field is required.</li></ul></li></ul>''"
    by (simp_all add: bind_form_def name_form_def name_required_def)
  note w = write_errors_are_400 [where v = people_view and fc = name_form and db = people]
  from w [where req = "body_request ''{name''" and kwargs = Map.empty and k = "PInt 2"]
       w [where req = "body_request ''{}''" and kwargs = Map.empty and k = "PInt 2"]
       w [where req = "body_request ''{name''" and kwargs = "[''id'' \<mapsto> PInt 2]" and k = "PInt 2"]
       w [where req = "body_request ''{}''" and kwargs = "[''id'' \<mapsto> PInt 2]" and k = "PInt 2"]
       a e k bad ok g i1 i2 e1 e2
  show ?thesis by simp
qed

section \<open>Refusals with status 405\<close>

text \<open>
  C6. Among the four handlers, the answer has status 405 exactly for a POST without an
  add form, a PUT without an edit form or without an identifier, and a DELETE without an
  identifier. In those cases the response is the fixed text named by the claim, whatever
  the body and the table are, and the table is returned unchanged.
\<close>

theorem rejects_405_exactly:
  "(http_status (fst (dispatch m v db req kwargs)) = 405 \<longleftrightarrow>
      (m = M_POST \<and> add_form_class v = None)
    \<or> (m = M_PUT \<and> (edit_form_class v = None \<or> kwargs (pk v) = None))
    \<or> (m = M_DELETE \<and> kwargs (pk v) = None))
   \<and> (add_form_class v = None \<longrightarrow>
        dispatch M_POST v db req kwargs =
          (Inr \<lparr>content = ''POST not supported'', status = 405, mimetype = None\<rparr>, db))
   \<and> (edit_form_class v = None \<or> kwargs (pk v) = None \<longrightarrow>
        dispatch M_PUT v db req kwargs =
          (Inr \<lparr>content = ''PUT not supported'', status = 405, mimetype = None\<rparr>, db))
   \<and> (kwargs (pk v) = None \<longrightarrow>
        dispatch M_DELETE v db req kwargs =
          (Inr \<lparr>content = ''DELETE is not supported for collections'', status = 405,
                mimetype = None\<rparr>, db))"
proof -
  have iff: "http_status (fst (dispatch m v db req kwargs)) = 405 \<longleftrightarrow>
      (m = M_POST \<and> add_form_class v = None)
    \<or> (m = M_PUT \<and> (edit_form_class v = None \<or> kwargs (pk v) = None))
    \<or> (m = M_DELETE \<and> kwargs (pk v) = None)"
    using get_status [of v db req kwargs]
    by (cases m) (auto simp: post_405_iff put_405_iff delete_405_iff)
  have p: "add_form_class v = None \<longrightarrow>
        dispatch M_POST v db req kwargs =
          (Inr \<lparr>content = ''POST not supported'', status = 405, mimetype = None\<rparr>, db)"
    by (simp add: post_def HttpResponse_def)
  have u: "edit_form_class v = None \<or> kwargs (pk v) = None \<longrightarrow>
        dispatch M_PUT v db req kwargs =
          (Inr \<lparr>content = ''PUT not supported'', status = 405, mimetype = None\<rparr>, db)"
    by (auto simp: put_def HttpResponse_def split: option.splits)
  have d: "kwargs (pk v) = None \<longrightarrow>
        dispatch M_DELETE v db req kwargs =
          (Inr \<lparr>content = ''DELETE is not supported for collections'', status = 405,
                mimetype = None\<rparr>, db)"
    by (simp add: delete_def HttpResponse_def)
  from iff p u d show ?thesis by blast
qed

theorem rejects_405_exactly_witness:
  "dispatch M_POST readonly_view people (body_request ''{name: Bo}'') Map.empty =
     (Inr \<lparr>content = ''POST not supported'', status = 405, mimetype = None\<rparr>, people)
   \<and> dispatch M_PUT readonly_view people (body_request ''{name: Bo}'') Map.empty =
     (Inr \<lparr>content = ''PUT not supported'', status = 405, mimetype = None\<rparr>, people)
   \<and> dispatch M_DELETE readonly_view people (body_request ''{name: Bo}'') Map.empty =
     (Inr \<lparr>content = ''DELETE is not supported for collections'', status = 405,
           mimetype = None\<rparr>, people)
   \<and> http_status (fst (dispatch M_DELETE people_view people (body_request [])
                          [''id'' \<mapsto> PInt 2])) \<noteq> 405
   \<and> http_status (fst (dispatch M_GET readonly_view people (body_request []) Map.empty))
        \<noteq> 405"
  using rejects_405_exactly [of M_POST readonly_view people "body_request ''{name: Bo}''" Map.empty]
        rejects_405_exactly [of M_DELETE people_view people "body_request []" "[''id'' \<mapsto> PInt 2]"]
        rejects_405_exactly [of M_GET readonly_view people "body_request []" Map.empty]
  by (simp add: readonly_view_def people_view_def)

section \<open>Presence of the identifier\<close>

text \<open>
  C9. GET tests the captured identifier for truth: with a falsy value (the empty string,
  0 and None are such values) it runs the list operation. PUT and DELETE test whether the
  key is in the URL arguments, so with the same falsy value they do not refuse with 405.
\<close>

theorem identifier_presence_by_method:
  assumes "kwargs (pk v) = Some k" and "\<not> truthy k"
  shows "get v db req kwargs = get_collection v db req kwargs
     \<and> (edit_form_class v \<noteq> None \<longrightarrow> http_status (fst (put v db req kwargs)) \<noteq> 405)
     \<and> http_status (fst (delete v db req kwargs)) \<noteq> 405
     \<and> \<not> truthy (PStr []) \<and> \<not> truthy (PInt 0) \<and> \<not> truthy PNone"
  using assms by (simp add: get_def truthy_get_def put_405_iff delete_405_iff)

theorem identifier_presence_by_method_witness:
  "\<not> truthy (PStr [])
   \<and> get people_view people (body_request []) [''id'' \<mapsto> PStr []] =
       get_collection people_view people (body_request []) [''id'' \<mapsto> PStr []]
   \<and> http_status (fst (put people_view people (body_request []) [''id'' \<mapsto> PStr []])) \<noteq> 405
   \<and> http_status (fst (delete people_view people (body_request []) [''id'' \<mapsto> PStr []])) \<noteq> 405
   \<and> put people_view people (body_request ''{'') [''id'' \<mapsto> PStr []] =
       (Inr \<lparr>content = ''Invalid PUT JSON'', status = 400, mimetype = None\<rparr>, people)
   \<and> delete people_view people (body_request []) [''id'' \<mapsto> PStr []] = (Inl Http404, people)"
proof -
  have k: "[''id'' \<mapsto> PStr []] (pk people_view) = Some (PStr [])"
    by (simp add: people_view_def)
  have f: "\<not> truthy (PStr [])" by simp
  have e: "edit_form_class people_view \<noteq> None" by (simp add: people_view_def)
  have p: "put people_view people (body_request ''{'') [''id'' \<mapsto> PStr []] =
       (Inr \<lparr>content = ''Invalid PUT JSON'', status = 400, mimetype = None\<rparr>, people)"
    by (simp add: put_def HttpResponse_def example_defs)
  have d: "delete people_view people (body_request []) [''id'' \<mapsto> PStr []] = (Inl Http404, people)"
    by (simp add: delete_def qs_filter_pk_def example_defs)
  from identifier_presence_by_method
         [where v = people_view and kwargs = "[''id'' \<mapsto> PStr []]" and k = "PStr []"
            and db = people and req = "body_request []", OF k f]
       e p d
  show ?thesis by simp
qed


section \<open>Fetching a single record\<close>

text \<open>
  C2. A GET with a (truthy) identifier requires exactly one row with that key. When the
  number of matching rows is not one, be it zero or several, the handler raises
  \<^verbatim>\<open>Http404\<close>. When exactly one row matches, the response is its projection, encoded,
  with status 200; and a response is returned only in that case.
\<close>

theorem get_single_requires_one:
  assumes "kwargs (pk v) = Some k" and "truthy k"
  shows "(length (filter (\<lambda>r. row_pk r = k) db) \<noteq> 1 \<longrightarrow> get v db req kwargs = Inl Http404)
   \<and> (\<forall>r data. filter (\<lambda>r. row_pk r = k) db = [r] \<and> get_values v (PyList [r]) = Inr [data] \<longrightarrow>
        get v db req kwargs =
          Inr \<lparr>content = json_encoder v data, status = 200,
               mimetype = Some ''application/json''\<rparr>)
   \<and> (\<forall>resp. get v db req kwargs = Inr resp \<longrightarrow>
        status resp = 200
        \<and> (\<exists>r data. filter (\<lambda>r. row_pk r = k) db = [r]
                   \<and> get_values v (PyList [r]) = Inr [data]
                   \<and> content resp = json_encoder v data))"
proof -
  from assms have t: "truthy_get kwargs (pk v)" by (simp add: truthy_get_def)
  have g: "get v db req kwargs = get_single_item v db req kwargs"
    using t by (simp add: get_def)
  have a: "length (filter (\<lambda>r. row_pk r = k) db) \<noteq> 1 \<longrightarrow> get v db req kwargs = Inl Http404"
    using assms by (simp add: g get_single_item_def qs_filter_pk_def)
  have one: "get v db req kwargs =
       (case get_values v (PyList [r]) of
          Inl e \<Rightarrow> Inl e
        | Inr vals \<Rightarrow> Inr (success_response (json_encoder v (hd vals))))"
    if "filter (\<lambda>r. row_pk r = k) db = [r]" for r
    using assms that t
    by (simp add: g get_single_item_def qs_filter_pk_def serialize_qs_single split: sum.splits)
  have b: "\<forall>r data. filter (\<lambda>r. row_pk r = k) db = [r] \<and> get_values v (PyList [r]) = Inr [data] \<longrightarrow>
        get v db req kwargs =
          Inr \<lparr>content = json_encoder v data, status = 200,
               mimetype = Some ''application/json''\<rparr>"
    by (auto simp: one success_response_def)
  have c: "status resp = 200
        \<and> (\<exists>r data. filter (\<lambda>r. row_pk r = k) db = [r]
                   \<and> get_values v (PyList [r]) = Inr [data]
                   \<and> content resp = json_encoder v data)"
    if r: "get v db req kwargs = Inr resp" for resp
  proof -
    from r a have "length (filter (\<lambda>r. row_pk r = k) db) = 1" by auto
    then obtain x where x: "filter (\<lambda>r. row_pk r = k) db = [x]"
      by (auto simp: length_Suc_conv)
    from r one [OF x] obtain vals where
      v: "get_values v (PyList [x]) = Inr vals"
      and resp: "resp = success_response (json_encoder v (hd vals))"
      by (auto split: sum.splits)
    from get_values_single [OF v] obtain data where "vals = [data]" ..
    with x v resp show ?thesis by (auto simp: success_response_def)
  qed
  from a b c show ?thesis by blast
qed

theorem get_single_requires_one_witness:
  "truthy (PInt 2)
   \<and> get people_view people (body_request []) [''id'' \<mapsto> PInt 2] =
       Inr \<lparr>content = ''{\"name\": \"Bo\", \"age\": 41}'', status = 200,
            mimetype = Some ''application/json''\<rparr>
   \<and> get people_view people (body_request []) [''id'' \<mapsto> PInt 7] = Inl Http404
   \<and> get people_view (people @ [person 2 ''Bob'' 9]) (body_request []) [''id'' \<mapsto> PInt 2]
       = Inl Http404"
proof -
  have k2: "[''id'' \<mapsto> PInt 2] (pk people_view) = Some (PInt 2)"
    and k7: "[''id'' \<mapsto> PInt 7] (pk people_view) = Some (PInt 7)"
    by (simp_all add: people_view_def)
  have t2: "truthy (PInt 2)" and t7: "truthy (PInt 7)" by simp_all
  have f2: "filter (\<lambda>r. row_pk r = PInt 2) people = [person 2 ''Bo'' 41]"
    and f7: "length (filter (\<lambda>r. row_pk r = PInt 7) people) \<noteq> 1"
    and fd: "length (filter (\<lambda>r. row_pk r = PInt 2) (people @ [person 2 ''Bob'' 9])) \<noteq> 1"
    by (simp_all add: people_def person_def)
  have gv: "get_values people_view (PyList [person 2 ''Bo'' 41]) =
              Inr [PDict [(''name'', PStr ''Bo''), (''age'', PInt 41)]]"
    by (simp add: projection_defs people_view_def person_def)
  have enc: "json_encoder people_view (PDict [(''name'', PStr ''Bo''), (''age'', PInt 41)]) =
               ''{\"name\": \"Bo\", \"age\": 41}''"
    by (simp add: people_view_def encoder_defs)
  note w = get_single_requires_one [where v = people_view and req = "body_request []"]
  note w2 = w [where kwargs = "[''id'' \<mapsto> PInt 2]" and k = "PInt 2" and db = people, OF k2 t2]
  note w7 = w [where kwargs = "[''id'' \<mapsto> PInt 7]" and k = "PInt 7" and db = people, OF k7 t7]
  note wd = w [where kwargs = "[''id'' \<mapsto> PInt 2]" and k = "PInt 2"
                 and db = "people @ [person 2 ''Bob'' 9]", OF k2 t2]
  from w2 [THEN conjunct2, THEN conjunct1] f2 gv
  have "get people_view people (body_request []) [''id'' \<mapsto> PInt 2] =
          Inr \<lparr>content = json_encoder people_view
                            (PDict [(''name'', PStr ''Bo''), (''age'', PInt 41)]),
               status = 200, mimetype = Some ''application/json''\<rparr>"
    by blast
  then have one: "get people_view people (body_request []) [''id'' \<mapsto> PInt 2] =
       Inr \<lparr>content = ''{\"name\": \"Bo\", \"age\": 41}'', status = 200,
            mimetype = Some ''application/json''\<rparr>"
    by (simp only: enc)
  from w7 [THEN conjunct1] f7
  have none: "get people_view people (body_request []) [''id'' \<mapsto> PInt 7] = Inl Http404"
    by blast
  from wd [THEN conjunct1] fd
  have many: "get people_view (people @ [person 2 ''Bob'' 9]) (body_request [])
                [''id'' \<mapsto> PInt 2] = Inl Http404"
    by blast
  from t2 one none many show ?thesis by blast
qed

section \<open>Deleting a record\<close>

text \<open>
  What \<^verbatim>\<open>delete\<close> does when the identifier is among the URL arguments. With no
  matching row it raises \<^verbatim>\<open>Http404\<close> and the table is unchanged. With matching rows
  the serialization is computed on the table as it is before the deletion, the matching
  rows are deleted, and that serialization is the body of a 200 response; an exception
  during serialization leaves the table untouched. When the identifier is truthy the
  serialization is the encoded projection of the first matching row. After a DELETE that
  answered with a response, the same DELETE raises \<^verbatim>\<open>Http404\<close>.
\<close>

lemma delete_with_identifier:
  assumes "kwargs (pk v) = Some k"
  shows "(filter (\<lambda>r. row_pk r = k) db = [] \<longrightarrow> delete v db req kwargs = (Inl Http404, db))
   \<and> (\<forall>out. filter (\<lambda>r. row_pk r = k) db \<noteq> []
          \<and> serialize_qs v kwargs req (QuerySet True (filter (\<lambda>r. row_pk r = k) db)) False
              = Inr out \<longrightarrow>
        delete v db req kwargs =
          (Inr \<lparr>content = out, status = 200, mimetype = Some ''application/json''\<rparr>,
           filter (\<lambda>r. row_pk r \<noteq> k) db))
   \<and> (\<forall>r rest data. truthy k \<and> filter (\<lambda>r. row_pk r = k) db = r # rest
          \<and> get_values v (PyList [r]) = Inr [data] \<longrightarrow>
        delete v db req kwargs =
          (Inr \<lparr>content = json_encoder v data, status = 200,
                mimetype = Some ''application/json''\<rparr>,
           filter (\<lambda>r. row_pk r \<noteq> k) db))
   \<and> (\<forall>e. filter (\<lambda>r. row_pk r = k) db \<noteq> []
          \<and> serialize_qs v kwargs req (QuerySet True (filter (\<lambda>r. row_pk r = k) db)) False
              = Inl e \<longrightarrow>
        delete v db req kwargs = (Inl e, db))
   \<and> (\<forall>resp db'. delete v db req kwargs = (Inr resp, db') \<longrightarrow>
        delete v db' req kwargs = (Inl Http404, db'))"
proof -
  let ?m = "filter (\<lambda>r. row_pk r = k) db"
  have a: "?m = [] \<longrightarrow> delete v db req kwargs = (Inl Http404, db)"
    using assms by (simp add: delete_def qs_filter_pk_def)
  have b: "\<forall>out. ?m \<noteq> [] \<and> serialize_qs v kwargs req (QuerySet True ?m) False = Inr out \<longrightarrow>
        delete v db req kwargs =
          (Inr \<lparr>content = out, status = 200, mimetype = Some ''application/json''\<rparr>,
           filter (\<lambda>r. row_pk r \<noteq> k) db)"
    using assms
    by (simp add: delete_def qs_filter_pk_def qs_delete_pk_def success_response_def)
  have c: "\<forall>r rest data. truthy k \<and> ?m = r # rest \<and> get_values v (PyList [r]) = Inr [data] \<longrightarrow>
        delete v db req kwargs =
          (Inr \<lparr>content = json_encoder v data, status = 200,
                mimetype = Some ''application/json''\<rparr>,
           filter (\<lambda>r. row_pk r \<noteq> k) db)"
    using assms
    by (auto simp: delete_def qs_filter_pk_def qs_delete_pk_def success_response_def
                   truthy_get_def serialize_qs_single)
  have d: "\<forall>e. ?m \<noteq> [] \<and> serialize_qs v kwargs req (QuerySet True ?m) False = Inl e \<longrightarrow>
        delete v db req kwargs = (Inl e, db)"
    using assms by (simp add: delete_def qs_filter_pk_def)
  have e: "delete v db' req kwargs = (Inl Http404, db')"
    if r: "delete v db req kwargs = (Inr resp, db')" for resp db'
  proof -
    from r assms have "db' = filter (\<lambda>r. row_pk r \<noteq> k) db"
      by (auto simp: delete_def qs_filter_pk_def qs_delete_pk_def Let_def
               split: if_splits sum.splits)
    then have "filter (\<lambda>r. row_pk r = k) db' = []" by (simp add: filter_empty_conv)
    with assms show ?thesis by (simp add: delete_def qs_filter_pk_def)
  qed
  from a b c d e show ?thesis by blast
qed

text \<open>
  C3. The claim that a DELETE with an identifier answers with the projection of the
  deleted record does not hold when the identifier is present but falsy. In \<^verbatim>\<open>delete\<close>
  the identifier counts as present by membership (\<^verbatim>\<open>self.pk not in kwargs\<close>), but
  \<^verbatim>\<open>serialize_qs\<close> tests \<^verbatim>\<open>self.kwargs.get(self.pk)\<close> for truth, against its own
  docstring ("or the url specified an id, return a single JSON object"). With the
  identifier 0, a row whose key is 0 and a page size of 2: on page 5 the row is deleted
  and the body is the empty list; without a page parameter the row is deleted and the
  body is a list holding the projection, not the projection.
\<close>

theorem delete_falsy_identifier_answers_page:
  "\<not> truthy (PInt 0)
   \<and> delete people_view (person 0 ''Zed'' 50 # people) (page_request ''5'') [''id'' \<mapsto> PInt 0] =
       (Inr \<lparr>content = ''[]'', status = 200, mimetype = Some ''application/json''\<rparr>, people)
   \<and> delete people_view (person 0 ''Zed'' 50 # people) (body_request []) [''id'' \<mapsto> PInt 0] =
       (Inr \<lparr>content = ''[{\"name\": \"Zed\", \"age\": 50}]'', status = 200,
             mimetype = Some ''application/json''\<rparr>, people)"
proof -
  have k: "[''id'' \<mapsto> PInt 0] (pk people_view) = Some (PInt 0)"
    and t: "\<not> truthy_get [''id'' \<mapsto> PInt 0] (pk people_view)"
    and S: "page_size people_view = Some 2"
    by (simp_all add: people_view_def truthy_get_def)
  have m: "filter (\<lambda>r. row_pk r = PInt 0) (person 0 ''Zed'' 50 # people) = [person 0 ''Zed'' 50]"
    and rest: "filter (\<lambda>r. row_pk r \<noteq> PInt 0) (person 0 ''Zed'' 50 # people) = people"
    by (simp_all add: people_def person_def)
  have o5: "page_offset people_view (page_request ''5'') 2 = 8"
    and o1: "page_offset people_view (body_request []) 2 = 0"
    by (simp_all add: page_offset_def page_request_def body_request_def people_view_def parse_defs)
  have s5: "py_slice [person 0 ''Zed'' 50] 8 10 = []"
    and s1: "py_slice [person 0 ''Zed'' 50] 0 2 = [person 0 ''Zed'' 50]"
    by (simp_all add: py_slice_def)
  have v5: "get_values people_view (PyList []) = Inr []"
    and v1: "get_values people_view (PyList [person 0 ''Zed'' 50]) =
               Inr [PDict [(''name'', PStr ''Zed''), (''age'', PInt 50)]]"
    by (simp_all add: projection_defs people_view_def person_def)
  have e5: "json_encoder people_view (PList []) = ''[]''"
    and e1: "json_encoder people_view (PList [PDict [(''name'', PStr ''Zed''), (''age'', PInt 50)]])
               = ''[{\"name\": \"Zed\", \"age\": 50}]''"
    by (simp_all add: people_view_def encoder_defs)
  have q5: "serialize_qs people_view [''id'' \<mapsto> PInt 0] (page_request ''5'')
              (QuerySet True [person 0 ''Zed'' 50]) False = Inr ''[]''"
    by (simp add: serialize_qs_def t S Let_def o5 s5 v5 e5)
  have q1: "serialize_qs people_view [''id'' \<mapsto> PInt 0] (body_request [])
              (QuerySet True [person 0 ''Zed'' 50]) False = Inr ''[{\"name\": \"Zed\", \"age\": 50}]''"
    by (simp add: serialize_qs_def t S Let_def o1 s1 v1 e1)
  note general = delete_with_identifier
    [where v = people_view and db = "person 0 ''Zed'' 50 # people"
       and kwargs = "[''id'' \<mapsto> PInt 0]" and k = "PInt 0", OF k,
     THEN conjunct2, THEN conjunct1, rule_format]
  have d5: "delete people_view (person 0 ''Zed'' 50 # people) (page_request ''5'')
              [''id'' \<mapsto> PInt 0] =
            (Inr \<lparr>content = ''[]'', status = 200, mimetype = Some ''application/json''\<rparr>, people)"
    using general [where req = "page_request ''5''" and out = "''[]''"]
    unfolding m rest using q5 by simp
  have d1: "delete people_view (person 0 ''Zed'' 50 # people) (body_request [])
              [''id'' \<mapsto> PInt 0] =
            (Inr \<lparr>content = ''[{\"name\": \"Zed\", \"age\": 50}]'', status = 200,
                  mimetype = Some ''application/json''\<rparr>, people)"
    using general [where req = "body_request []" and out = "''[{\"name\": \"Zed\", \"age\": 50}]''"]
    unfolding m rest using q1 by simp
  from d5 d1 show ?thesis by simp
qed

section \<open>The projection of a record\<close>

text \<open>
  C7. When \<open>values_override\<close> is set, the projection of each record is exactly what the
  override returns for it, and changing \<open>serialize_fields\<close> or \<open>custom_values\<close> changes
  nothing. Otherwise, when \<open>custom_values\<close> is not empty, each record is projected by
  reading the names of \<open>serialize_fields\<close> off it and then storing every custom entry:
  under the name of a custom entry the result holds the custom function's value
  (the entries of a dictionary have distinct names), and a plain field keeps the
  attribute's value only where no custom entry has its name.
\<close>

theorem projection_rules:
  "(values_override v = Some f \<longrightarrow>
       get_values v qs = Inr (map f (qs_rows qs))
     \<and> get_values (v\<lparr>serialize_fields := sf, custom_values := cv\<rparr>) qs = get_values v qs)
   \<and> (values_override v = None \<and> custom_values v \<noteq> [] \<longrightarrow>
       get_values v qs = map_rows (row_vals v) (qs_rows qs)
     \<and> (\<forall>obj ps. read_fields obj (serialize_fields v) = Inr ps \<longrightarrow>
           row_vals v obj =
             Inr (PDict (apply_custom (custom_values v) obj (dict_of_pairs ps))))
     \<and> (\<forall>obj d name method.
           row_vals v obj = Inr (PDict d) \<and> distinct (map fst (custom_values v))
           \<and> (name, method) \<in> set (custom_values v) \<longrightarrow>
           map_of d name = Some (method obj))
     \<and> (\<forall>obj d name.
           row_vals v obj = Inr (PDict d) \<and> name \<in> set (serialize_fields v)
           \<and> name \<notin> fst ` set (custom_values v) \<longrightarrow>
           (\<exists>x. getattr obj name = Inr x \<and> map_of d name = Some x)))"
proof -
  have a: "values_override v = Some f \<longrightarrow>
       get_values v qs = Inr (map f (qs_rows qs))
     \<and> get_values (v\<lparr>serialize_fields := sf, custom_values := cv\<rparr>) qs = get_values v qs"
    by (simp add: get_values_def)
  have b: "values_override v = None \<and> custom_values v \<noteq> [] \<longrightarrow>
       get_values v qs = map_rows (row_vals v) (qs_rows qs)"
    by (simp add: get_values_def)
  have c: "\<forall>obj ps. read_fields obj (serialize_fields v) = Inr ps \<longrightarrow>
           row_vals v obj =
             Inr (PDict (apply_custom (custom_values v) obj (dict_of_pairs ps)))"
    by (simp add: row_vals_def)
  have d: "map_of d name = Some (m obj)"
    if "row_vals v obj = Inr (PDict d)" "distinct (map fst (custom_values v))"
       "(name, m) \<in> set (custom_values v)" for obj d name m
  proof -
    from that(2,3) have "map_of (rev (custom_values v)) name = Some m"
      by (metis distinct_rev map_of_is_SomeI rev_map set_rev)
    with that(1) show ?thesis
      by (auto simp: row_vals_def map_of_apply_custom split: sum.splits)
  qed
  have e: "\<exists>x. getattr obj name = Inr x \<and> map_of d name = Some x"
    if "row_vals v obj = Inr (PDict d)" "name \<in> set (serialize_fields v)"
       "name \<notin> fst ` set (custom_values v)" for obj d name
  proof -
    from that(1) obtain ps where ps: "read_fields obj (serialize_fields v) = Inr ps"
      and d: "d = apply_custom (custom_values v) obj (dict_of_pairs ps)"
      by (auto simp: row_vals_def split: sum.splits)
    from that(3) have "map_of (rev (custom_values v)) name = None"
      by (simp add: map_of_eq_None_iff)
    with d have "map_of d name = map_of (rev ps) name"
      by (simp add: map_of_apply_custom map_of_dict_of_pairs)
    with read_fields_lookup [OF ps that(2)] show ?thesis by simp
  qed
  from a b c d e show ?thesis by blast
qed

theorem projection_rules_witness:
  "get_values keys_view (QuerySet False people) =
     Inr [PDict [(''key'', PInt 1)], PDict [(''key'', PInt 2)], PDict [(''key'', PInt 3)]]
   \<and> get_values (keys_view\<lparr>serialize_fields := [], custom_values := [(''age'', \<lambda>obj. PNone)]\<rparr>)
         (QuerySet False people) = get_values keys_view (QuerySet False people)
   \<and> get_values masked_view (QuerySet False people) =
       map_rows (row_vals masked_view) people
   \<and> row_vals masked_view (person 1 ''Ann'' 30) =
       Inr (PDict [(''name'', PStr ''Ann''), (''age'', PStr ''hidden'')])
   \<and> map_of [(''name'', PStr ''Ann''), (''age'', PStr ''hidden'')] ''age'' = Some (PStr ''hidden'')
   \<and> getattr (person 1 ''Ann'' 30) ''name'' = Inr (PStr ''Ann'')
   \<and> map_of [(''name'', PStr ''Ann''), (''age'', PStr ''hidden'')] ''name'' = Some (PStr ''Ann'')"
proof -
  let ?f = "\<lambda>obj. PDict [(''key'', row_pk obj)]"
  let ?m = "\<lambda>obj::row. PStr ''hidden''"
  have o: "values_override keys_view = Some ?f"
    by (simp add: keys_view_def)
  have n: "values_override masked_view = None \<and> custom_values masked_view \<noteq> []"
    by (simp add: masked_view_def people_view_def)
  have rf: "read_fields (person 1 ''Ann'' 30) (serialize_fields masked_view) =
              Inr [(''name'', PStr ''Ann''), (''age'', PInt 30)]"
    by (simp add: masked_view_def people_view_def person_def getattr_def)
  have ev: "apply_custom (custom_values masked_view) (person 1 ''Ann'' 30)
              (dict_of_pairs [(''name'', PStr ''Ann''), (''age'', PInt 30)]) =
            [(''name'', PStr ''Ann''), (''age'', PStr ''hidden'')]"
    by (simp add: masked_view_def people_view_def apply_custom_def dict_of_pairs_def)
  have dist: "distinct (map fst (custom_values masked_view))"
    and mem: "(''age'', ?m) \<in> set (custom_values masked_view)"
    and sf: "''name'' \<in> set (serialize_fields masked_view)"
    and nc: "''name'' \<notin> fst ` set (custom_values masked_view)"
    by (simp_all add: masked_view_def people_view_def)
  have rows: "map ?f (qs_rows (QuerySet False people)) =
     [PDict [(''key'', PInt 1)], PDict [(''key'', PInt 2)], PDict [(''key'', PInt 3)]]"
    by (simp add: people_def person_def)
  note k = projection_rules [where v = keys_view and f = ?f and qs = "QuerySet False people"
             and sf = "[]" and cv = "[(''age'', \<lambda>obj. PNone)]", THEN conjunct1, rule_format, OF o]
  note m = projection_rules [where v = masked_view and qs = "QuerySet False people",
             THEN conjunct2, rule_format, OF n]
  from k rows have c1: "get_values keys_view (QuerySet False people) =
     Inr [PDict [(''key'', PInt 1)], PDict [(''key'', PInt 2)], PDict [(''key'', PInt 3)]]"
    by simp
  from k have c2: "get_values (keys_view\<lparr>serialize_fields := [], custom_values := [(''age'', \<lambda>obj. PNone)]\<rparr>)
         (QuerySet False people) = get_values keys_view (QuerySet False people)"
    by simp
  from m have c3: "get_values masked_view (QuerySet False people) =
       map_rows (row_vals masked_view) people"
    by simp
  from m rf ev have c4: "row_vals masked_view (person 1 ''Ann'' 30) =
       Inr (PDict [(''name'', PStr ''Ann''), (''age'', PStr ''hidden'')])"
    by metis
  from m c4 dist mem
  have c5: "map_of [(''name'', PStr ''Ann''), (''age'', PStr ''hidden'')] ''age'' = Some (?m (person 1 ''Ann'' 30))"
    by blast
  from m c4 sf nc
  have c6: "\<exists>x. getattr (person 1 ''Ann'' 30) ''name'' = Inr x
             \<and> map_of [(''name'', PStr ''Ann''), (''age'', PStr ''hidden'')] ''name'' = Some x"
    by blast
  from c1 c2 c3 c4 c5 c6 show ?thesis by auto
qed


section \<open>Pagination\<close>

text \<open>
  C4. For the list operation with page size \<open>S\<close> (not negative) and a page parameter that
  reads as an integer \<open>P\<close> of at least 1, the offset is \<open>(P - 1) * S\<close> and the records
  serialized are those of the table from that index on, at most \<open>S\<close> of them. When the
  offset is at or beyond the number of records, the answer is the empty list with status
  200, given that the names in \<open>serialize_fields\<close> are fields of the model (otherwise
  every list request fails on the field names, whatever the page). A page parameter that
  does not read as an integer gives offset 0, that is, the first \<open>S\<close> records.
\<close>

theorem page_slice:
  assumes "page_size v = Some S" and "0 \<le> S" and "\<not> truthy_get kwargs (pk v)"
  shows
   "(GET req (page_param_name v) = Some s \<and> py_int s = Some P \<and> 1 \<le> P \<longrightarrow>
       page_offset v req S = (P - 1) * S
     \<and> get v db req kwargs =
         (case get_values v (QuerySet False (take (nat S) (drop (nat ((P - 1) * S)) db))) of
            Inl e \<Rightarrow> Inl e
          | Inr vals \<Rightarrow> Inr (success_response (json_encoder v (PList vals))))
     \<and> (\<forall>vals. get_values v (QuerySet False (take (nat S) (drop (nat ((P - 1) * S)) db)))
                  = Inr vals \<longrightarrow> length vals \<le> nat S)
     \<and> (int (length db) \<le> (P - 1) * S \<and> set (serialize_fields v) \<subseteq> set (model_fields v) \<longrightarrow>
          get v db req kwargs = Inr (success_response (json_encoder v (PList [])))))
    \<and> (GET req (page_param_name v) = Some s \<and> py_int s = None \<longrightarrow>
       page_offset v req S = 0
     \<and> get v db req kwargs =
         (case get_values v (QuerySet False (take (nat S) db)) of
            Inl e \<Rightarrow> Inl e
          | Inr vals \<Rightarrow> Inr (success_response (json_encoder v (PList vals)))))"
proof (intro conjI impI)
  assume h: "GET req (page_param_name v) = Some s \<and> py_int s = Some P \<and> 1 \<le> P"
  then have off: "page_offset v req S = (P - 1) * S" by (simp add: page_offset_int)
  from h assms(2) have nn: "0 \<le> (P - 1) * S" by simp
  show "page_offset v req S = (P - 1) * S" by (rule off)
  show w: "get v db req kwargs =
         (case get_values v (QuerySet False (take (nat S) (drop (nat ((P - 1) * S)) db))) of
            Inl e \<Rightarrow> Inl e
          | Inr vals \<Rightarrow> Inr (success_response (json_encoder v (PList vals))))"
    by (rule get_page_window [OF assms off nn])
  show "\<forall>vals. get_values v (QuerySet False (take (nat S) (drop (nat ((P - 1) * S)) db)))
                  = Inr vals \<longrightarrow> length vals \<le> nat S"
    by (auto dest!: get_values_length)
  assume e: "int (length db) \<le> (P - 1) * S \<and> set (serialize_fields v) \<subseteq> set (model_fields v)"
  then have "length db \<le> nat ((P - 1) * S)" by linarith
  then have "drop (nat ((P - 1) * S)) db = []" by simp
  with e show "get v db req kwargs = Inr (success_response (json_encoder v (PList [])))"
    by (simp add: w get_values_no_rows)
next
  assume h: "GET req (page_param_name v) = Some s \<and> py_int s = None"
  then have off: "page_offset v req S = 0" by (simp add: page_offset_unparsed)
  show "page_offset v req S = 0" by (rule off)
  from get_page_window [OF assms off]
  show "get v db req kwargs =
         (case get_values v (QuerySet False (take (nat S) db)) of
            Inl e \<Rightarrow> Inl e
          | Inr vals \<Rightarrow> Inr (success_response (json_encoder v (PList vals))))"
    by simp
qed

theorem page_slice_witness:
  "page_offset people_view (page_request ''2'') 2 = 2
   \<and> get people_view people (page_request ''2'') no_kwargs =
       Inr \<lparr>content = ''[{\"name\": \"Cy\", \"age\": 25}]'', status = 200,
            mimetype = Some ''application/json''\<rparr>
   \<and> get people_view people (page_request ''3'') no_kwargs =
       Inr \<lparr>content = ''[]'', status = 200, mimetype = Some ''application/json''\<rparr>
   \<and> page_offset people_view (page_request ''abc'') 2 = 0
   \<and> get people_view people (page_request ''abc'') no_kwargs =
       Inr \<lparr>content = ''[{\"name\": \"Ann\", \"age\": 30}, {\"name\": \"Bo\", \"age\": 41}]'',
            status = 200, mimetype = Some ''application/json''\<rparr>"
proof -
  have S: "page_size people_view = Some 2" and nn: "(0::int) \<le> 2"
    and k: "\<not> truthy_get no_kwargs (pk people_view)"
    by (simp_all add: people_view_def no_kwargs_def truthy_get_def)
  note w = page_slice [OF S nn k, where db = people]
  have g2: "GET (page_request ''2'') (page_param_name people_view) = Some ''2''
              \<and> py_int ''2'' = Some 2 \<and> (1::int) \<le> 2"
    and g3: "GET (page_request ''3'') (page_param_name people_view) = Some ''3''
              \<and> py_int ''3'' = Some 3 \<and> (1::int) \<le> 3"
    and gx: "GET (page_request ''abc'') (page_param_name people_view) = Some ''abc''
              \<and> py_int ''abc'' = None"
    by (simp_all add: page_request_def people_view_def parse_defs)
  have beyond: "int (length people) \<le> (3 - 1) * 2
                 \<and> set (serialize_fields people_view) \<subseteq> set (model_fields people_view)"
    by (simp add: people_def people_view_def)
  have v2: "get_values people_view (QuerySet False (take (nat 2) (drop (nat ((2 - 1) * 2)) people)))
              = Inr [PDict [(''name'', PStr ''Cy''), (''age'', PInt 25)]]"
    and vx: "get_values people_view (QuerySet False (take (nat 2) people))
              = Inr [PDict [(''name'', PStr ''Ann''), (''age'', PInt 30)],
                     PDict [(''name'', PStr ''Bo''), (''age'', PInt 41)]]"
    by (simp_all add: projection_defs people_view_def people_def person_def)
  have e2: "json_encoder people_view (PList [PDict [(''name'', PStr ''Cy''), (''age'', PInt 25)]])
              = ''[{\"name\": \"Cy\", \"age\": 25}]''"
    and e3: "json_encoder people_view (PList []) = ''[]''"
    and ex: "json_encoder people_view
               (PList [PDict [(''name'', PStr ''Ann''), (''age'', PInt 30)],
                       PDict [(''name'', PStr ''Bo''), (''age'', PInt 41)]])
              = ''[{\"name\": \"Ann\", \"age\": 30}, {\"name\": \"Bo\", \"age\": 41}]''"
    by (simp_all add: people_view_def encoder_defs)
  note w2 = w [where req = "page_request ''2''" and s = "''2''" and P = 2,
               THEN conjunct1, rule_format, OF g2]
  note w3 = w [where req = "page_request ''3''" and s = "''3''" and P = 3,
               THEN conjunct1, rule_format, OF g3]
  note wx = w [where req = "page_request ''abc''" and s = "''abc''",
               THEN conjunct2, rule_format, OF gx]
  from w2 have c1: "page_offset people_view (page_request ''2'') 2 = 2" by simp
  from w2 have "get people_view people (page_request ''2'') no_kwargs =
      (case get_values people_view (QuerySet False (take (nat 2) (drop (nat ((2 - 1) * 2)) people))) of
         Inl e \<Rightarrow> Inl e
       | Inr vals \<Rightarrow> Inr (success_response (json_encoder people_view (PList vals))))"
    by blast
  then have c2: "get people_view people (page_request ''2'') no_kwargs =
       Inr \<lparr>content = ''[{\"name\": \"Cy\", \"age\": 25}]'', status = 200,
            mimetype = Some ''application/json''\<rparr>"
    by (simp only: v2 sum.case e2 success_response_def)
  from w3 beyond have "get people_view people (page_request ''3'') no_kwargs =
      Inr (success_response (json_encoder people_view (PList [])))"
    by blast
  then have c3: "get people_view people (page_request ''3'') no_kwargs =
       Inr \<lparr>content = ''[]'', status = 200, mimetype = Some ''application/json''\<rparr>"
    by (simp only: e3 success_response_def)
  from wx have c4: "page_offset people_view (page_request ''abc'') 2 = 0" by blast
  from wx have "get people_view people (page_request ''abc'') no_kwargs =
      (case get_values people_view (QuerySet False (take (nat 2) people)) of
         Inl e \<Rightarrow> Inl e
       | Inr vals \<Rightarrow> Inr (success_response (json_encoder people_view (PList vals))))"
    by blast
  then have c5: "get people_view people (page_request ''abc'') no_kwargs =
       Inr \<lparr>content = ''[{\"name\": \"Ann\", \"age\": 30}, {\"name\": \"Bo\", \"age\": 41}]'',
            status = 200, mimetype = Some ''application/json''\<rparr>"
    by (simp only: vx sum.case ex success_response_def)
  from c1 c2 c3 c4 c5 show ?thesis by blast
qed

text \<open>
  C1, as amended. For the list operation with a positive page size \<open>S\<close>, a page parameter
  that reads as an integer \<open>P\<close> below 1 is not treated as page 1: the offset is
  \<open>(P - 1) * S\<close>, which is at most \<open>- S\<close> and so never 0, and the collection is asked
  for the slice from that offset to \<open>offset + S\<close> under its own slicing rules.
\<close>

theorem page_below_one_offset:
  assumes "page_size v = Some S" and "0 < S" and "\<not> truthy_get kwargs (pk v)"
    and "GET req (page_param_name v) = Some s" and "py_int s = Some P" and "P < 1"
  shows "page_offset v req S = (P - 1) * S
     \<and> page_offset v req S \<le> - S
     \<and> page_offset v req S \<noteq> 0
     \<and> get v db req kwargs =
         (case qs_slice (QuerySet False db) ((P - 1) * S) ((P - 1) * S + S) of
            Inl e \<Rightarrow> Inl e
          | Inr q \<Rightarrow>
              (case get_values v q of
                 Inl e \<Rightarrow> Inl e
               | Inr vals \<Rightarrow> Inr (success_response (json_encoder v (PList vals)))))"
proof -
  have off: "page_offset v req S = (P - 1) * S"
    using assms(4,5) by (rule page_offset_int)
  from assms(6) have "P - 1 \<le> - 1" by simp
  with assms(2) have "(P - 1) * S \<le> (- 1) * S" by (intro mult_right_mono) simp_all
  then have le: "(P - 1) * S \<le> - S" by simp
  with assms(2) have ne: "(P - 1) * S \<noteq> 0" by linarith
  from get_collection_page [OF assms(1,3), of db req] off le ne
  show ?thesis by simp
qed

theorem page_below_one_offset_witness:
  "py_int ''-1'' = Some (- 1)
   \<and> page_offset people_view (page_request ''-1'') 2 = - 4
   \<and> get people_view people (page_request ''-1'') no_kwargs =
       (case qs_slice (QuerySet False people) (- 4) (- 2) of
          Inl e \<Rightarrow> Inl e
        | Inr q \<Rightarrow>
            (case get_values people_view q of
               Inl e \<Rightarrow> Inl e
             | Inr vals \<Rightarrow> Inr (success_response (json_encoder people_view (PList vals)))))"
proof -
  have S: "page_size people_view = Some 2" and pos: "(0::int) < 2"
    and k: "\<not> truthy_get no_kwargs (pk people_view)"
    and g: "GET (page_request ''-1'') (page_param_name people_view) = Some ''-1''"
    and p: "py_int ''-1'' = Some (- 1)" and lt: "(- 1::int) < 1"
    by (simp_all add: people_view_def no_kwargs_def truthy_get_def page_request_def parse_defs)
  from page_below_one_offset [OF S pos k g p lt, of people] p
  show ?thesis by simp
qed

text \<open>
  C1 as the specification states it (a page below 1 gives offset 0 and the first \<open>S\<close>
  records, like page 1) fails for page 0 with page size 2 on a table of three records:
  the offset is -2; the queryset refuses the negative bound, so the request raises where
  page 1 returns the first two records; and a plain list sliced at the same bounds is
  empty.
\<close>

theorem page_zero_counterexample:
  "py_int ''0'' = Some 0
   \<and> page_offset people_view (page_request ''0'') 2 = - 2
   \<and> get people_view people (page_request ''0'') no_kwargs = Inl AssertionError
   \<and> get people_view people (page_request ''1'') no_kwargs =
       Inr \<lparr>content = ''[{\"name\": \"Ann\", \"age\": 30}, {\"name\": \"Bo\", \"age\": 41}]'',
            status = 200, mimetype = Some ''application/json''\<rparr>
   \<and> serialize_qs people_view no_kwargs (page_request ''0'') (PyList people) False = Inr ''[]''
   \<and> page_offset people_view (page_request ''0'') 2 \<noteq> 0
   \<and> get people_view people (page_request ''0'') no_kwargs
       \<noteq> get people_view people (page_request ''1'') no_kwargs"
proof -
  have p0: "py_int ''0'' = Some 0" and p1: "py_int ''1'' = Some 1"
    by (simp_all add: parse_defs)
  have o0: "page_offset people_view (page_request ''0'') 2 = - 2"
    and o1: "page_offset people_view (page_request ''1'') 2 = 0"
    by (simp_all add: page_offset_def page_request_def people_view_def p0 p1)
  have S: "page_size people_view = Some 2"
    and k: "\<not> truthy_get no_kwargs (pk people_view)"
    by (simp_all add: people_view_def no_kwargs_def truthy_get_def)
  have g0: "get people_view people (page_request ''0'') no_kwargs = Inl AssertionError"
    by (simp add: get_collection_page [OF S k] o0)
  have vx: "get_values people_view (QuerySet False (py_slice people 0 2))
              = Inr [PDict [(''name'', PStr ''Ann''), (''age'', PInt 30)],
                     PDict [(''name'', PStr ''Bo''), (''age'', PInt 41)]]"
    by (simp add: py_slice_def projection_defs people_view_def people_def person_def)
  have ex: "json_encoder people_view
               (PList [PDict [(''name'', PStr ''Ann''), (''age'', PInt 30)],
                       PDict [(''name'', PStr ''Bo''), (''age'', PInt 41)]])
              = ''[{\"name\": \"Ann\", \"age\": 30}, {\"name\": \"Bo\", \"age\": 41}]''"
    by (simp add: people_view_def encoder_defs)
  have g1: "get people_view people (page_request ''1'') no_kwargs =
       Inr \<lparr>content = ''[{\"name\": \"Ann\", \"age\": 30}, {\"name\": \"Bo\", \"age\": 41}]'',
            status = 200, mimetype = Some ''application/json''\<rparr>"
    by (simp add: get_collection_page [OF S k] o1 vx ex success_response_def)
  have l0: "py_slice people (- 2) 0 = []"
    by (simp add: py_slice_def people_def)
  have e0: "json_encoder people_view (PList []) = ''[]''"
    by (simp add: people_view_def)
  have gv0: "get_values people_view (PyList []) = Inr []"
    by (simp add: get_values_def people_view_def)
  have s0: "serialize_qs people_view no_kwargs (page_request ''0'') (PyList people) False = Inr ''[]''"
    by (simp add: serialize_qs_def k S Let_def o0 l0 gv0 e0)
  from o0 have n0: "page_offset people_view (page_request ''0'') 2 \<noteq> 0" by simp
  from g0 g1 have ne: "get people_view people (page_request ''0'') no_kwargs
       \<noteq> get people_view people (page_request ''1'') no_kwargs"
    by simp
  from p0 o0 g0 g1 s0 n0 ne show ?thesis by blast
qed

end
